theory Spec2Isabelle
  imports Complex_Main "HOL-Library.Word"
begin

unbundle bit_operations_syntax

section \<open>Hardware configuration and animation constants\<close>

text \<open>
  The sketch (src/main.cpp) runs two functions repeatedly: \<open>loop\<close> on core 0 samples
  the tilt, and \<open>loop1\<close> on core 1 integrates the water particle, renders the glow and
  prints the text bar. Quantities of C++ type \<open>float\<close> are modelled in type \<open>real\<close>, in two ways. The
  sections on the two cores take the arithmetic as exact. The section on core 1 in single
  precision repeats the animation tick with the rounding of every store written out;
  it is the one to consult where a property depends on what a \<open>float\<close> can hold.
  Integers of a fixed width are words.
\<close>

definition NUM_LEDS :: nat where
  "NUM_LEDS = 30"

definition BOUNCE_DAMPING :: real where
  "BOUNCE_DAMPING = 0.85"

definition MAX_VELOCITY :: real where
  "MAX_VELOCITY = 1.0"

definition GLOW_DECAY :: real where
  "GLOW_DECAY = 0.5"

record CRGB =
  r :: "8 word"
  g :: "8 word"
  b :: "8 word"

definition WATER_COLOR :: CRGB where
  \<comment> \<open>\<open>CRGB::Blue\<close>, the colour code 0x0000FF\<close>
  "WATER_COLOR = \<lparr>r = 0, g = 0, b = 255\<rparr>"

definition Black :: CRGB where
  "Black = \<lparr>r = 0, g = 0, b = 0\<rparr>"

section \<open>Single and double precision\<close>

text \<open>
  Where a claim depends on what a \<open>float\<close> or a \<open>double\<close> can hold, the value stored is
  the IEEE 754 rounding of the exact result: to the nearest number with \<open>p\<close> significant
  bits, ties to the even significand, with gradual underflow below \<open>2 powi emin\<close>. The
  quantities of the sketch stay far below the overflow threshold, so infinities and NaN
  do not occur and are not modelled. \<open>float32\<close> is the conversion to \<open>float\<close> (24 bits),
  \<open>float64\<close> the conversion to \<open>double\<close> (53 bits).
\<close>

definition round_even :: "real \<Rightarrow> int" where
  "round_even y =
     (let n = \<lfloor>y\<rfloor>; f = y - of_int n
      in if f < 1 / 2 then n else if 1 / 2 < f then n + 1 else if even n then n else n + 1)"

definition binade :: "real \<Rightarrow> int" where
  "binade x = \<lfloor>log 2 \<bar>x\<bar>\<rfloor>"

definition round_to :: "nat \<Rightarrow> int \<Rightarrow> real \<Rightarrow> real" where
  "round_to p emin x =
     (if x = 0 then 0
      else let u = 2 powi (max emin (binade x) - (int p - 1))
           in of_int (round_even (x / u)) * u)"

definition float32 :: "real \<Rightarrow> real" where
  "float32 = round_to 24 (- 126)"

definition float64 :: "real \<Rightarrow> real" where
  "float64 = round_to 53 (- 1022)"

section \<open>Text visualizer\<close>

text \<open>
  The caller's character buffer is a store from indices to characters, together with
  the list of indices stored to so far, in program order. An assignment
  \<open>buffer[i] = c\<close> is \<open>poke i c\<close>.
\<close>

record char_buffer =
  cells :: "nat \<Rightarrow> char"
  stores :: "nat list"

definition poke :: "nat \<Rightarrow> char \<Rightarrow> char_buffer \<Rightarrow> char_buffer" where
  "poke i c buffer = buffer\<lparr>cells := (cells buffer)(i := c), stores := stores buffer @ [i]\<rparr>"

definition glyph :: "8 word \<Rightarrow> char" where
  \<comment> \<open>the threshold chain of lines 194 to 209\<close>
  "glyph brightness =
     (if brightness > 180 then CHR ''~''
      else if brightness > 50 then CHR ''=''
      else if brightness > 10 then CHR ''_''
      else CHR '' '')"

definition peak :: "CRGB \<Rightarrow> 8 word" where
  \<comment> \<open>\<open>max(max(leds[i].r, leds[i].g), leds[i].b)\<close>\<close>
  "peak c = max (max (r c) (g c)) (b c)"

text \<open>
  \<open>create_ascii_visualization\<close> reads the global pixel array; here the array is its first
  argument. The array has \<open>NUM_LEDS\<close> entries, so the reads \<open>leds[i]\<close> are in range.
\<close>

function ascii_loop :: "CRGB list \<Rightarrow> nat \<Rightarrow> char_buffer \<Rightarrow> char_buffer" where
  "ascii_loop leds i buffer =
     (if i < NUM_LEDS
      then ascii_loop leds (Suc i) (poke i (glyph (peak (leds ! i))) buffer)
      else buffer)"
  by pat_completeness auto
termination
  by (relation "measure (\<lambda>(leds, i, buffer). NUM_LEDS - i)") auto

declare ascii_loop.simps [simp del]

definition create_ascii_visualization :: "CRGB list \<Rightarrow> char_buffer \<Rightarrow> int \<Rightarrow> char_buffer" where
  "create_ascii_visualization leds buffer buffer_size =
     (if buffer_size < int NUM_LEDS + 1 then buffer
      else poke NUM_LEDS (CHR 0x00) (ascii_loop leds 0 buffer))"

section \<open>Shared state\<close>

text \<open>
  The globals of the sketch. \<open>g_tilt_x\<close> and \<open>g_sensor_connected\<close> are written by
  core 0 only; the other four belong to core 1.
\<close>

record state =
  g_tilt_x :: real
  g_sensor_connected :: bool
  leds :: "CRGB list"
  water_pos :: real
  water_vel :: real
  flow_time_offset :: real

definition initial :: state where
  \<comment> \<open>the initialisers of lines 26 to 33; a global array starts zeroed\<close>
  "initial = \<lparr>g_tilt_x = 0.0, g_sensor_connected = False,
     leds = replicate NUM_LEDS Black,
     water_pos = real NUM_LEDS / 2.0, water_vel = 0.0, flow_time_offset = 0.0\<rparr>"

section \<open>Core 0: sensor reading and simulation\<close>

text \<open>
  The I2C driver is an outside capability. What one bus transaction answers is an
  input of the model: the status code of \<open>Wire.endTransmission\<close> and the bytes the
  device delivers to \<open>Wire.requestFrom\<close>. \<open>requestFrom\<close> keeps at most the requested
  quantity in the receive queue and returns how many it kept; \<open>Wire.read\<close> takes the
  next byte from the queue, or returns \<open>-1\<close> when the queue is empty.
\<close>

record wire =
  endTransmission :: "8 word"
  delivered :: "8 word list"

definition requestFrom :: "nat \<Rightarrow> wire \<Rightarrow> nat \<times> 8 word list" where
  "requestFrom quantity w = (let rx = take quantity (delivered w) in (length rx, rx))"

fun Wire_read :: "8 word list \<Rightarrow> int \<times> 8 word list" where
  "Wire_read [] = (- 1, [])"
| "Wire_read (x # rx) = (uint x, rx)"

definition int16_t :: "int \<Rightarrow> int" where
  \<comment> \<open>conversion of an \<open>int\<close> to \<open>int16_t\<close>: the low 16 bits, read as two's complement\<close>
  "int16_t n = sint (word_of_int n :: 16 word)"

definition read_mpu6050 :: "wire \<Rightarrow> real option" where
  \<comment> \<open>\<open>None\<close> is the return value \<open>false\<close>; \<open>Some accX\<close> is \<open>true\<close> with the reference
      parameter set. The two reads are taken left to right.\<close>
  "read_mpu6050 w =
     (if endTransmission w \<noteq> 0 then None
      else let (n, rx) = requestFrom 6 w in
        if n \<noteq> 6 then None
        else let (hi, rx1) = Wire_read rx;
                 (lo, rx2) = Wire_read rx1;
                 rawX = int16_t (push_bit 8 hi OR lo)
             in Some (real_of_int rawX / 16384.0))"

definition setup_core0 :: "8 word \<Rightarrow> state \<Rightarrow> state" where
  \<comment> \<open>the function \<open>setup\<close> of core 0; \<open>probe\<close> is the status of the \<open>endTransmission\<close>
      that addresses the device\<close>
  "setup_core0 probe s =
     (if probe = 0 then s\<lparr>g_sensor_connected := True\<rparr>
      else s\<lparr>g_sensor_connected := False\<rparr>)"

record tick =
  bus :: wire
  millis :: "32 word"

definition loop :: "tick \<Rightarrow> state \<Rightarrow> state" where
  \<comment> \<open>\<open>millis() / 1000.0\<close> is a \<open>double\<close> division, stored in \<open>float time_sec\<close>\<close>
  "loop t s =
     (if g_sensor_connected s
      then (case read_mpu6050 (bus t) of
              Some new_accel_x \<Rightarrow> s\<lparr>g_tilt_x := new_accel_x\<rparr>
            | None \<Rightarrow> s)
      else let time_sec = float32 (float64 (real (unat (millis t)) / 1000.0))
           in s\<lparr>g_tilt_x := sin (time_sec * 0.5) * 0.8\<rparr>)"

section \<open>Core 1: LED control and serial monitor\<close>

definition constrain :: "real \<Rightarrow> real \<Rightarrow> real \<Rightarrow> real" where
  \<comment> \<open>the Arduino macro \<open>((amt)<(low)?(low):((amt)>(high)?(high):(amt)))\<close>\<close>
  "constrain amt low high = (if amt < low then low else if amt > high then high else amt)"

definition physics_update :: "state \<Rightarrow> state" where
  \<comment> \<open>lines 133 to 143\<close>
  "physics_update s =
     (let tilt_accel = g_tilt_x s * 0.2;
          s1 = s\<lparr>water_vel := water_vel s + tilt_accel\<rparr>;
          s2 = s1\<lparr>water_vel := water_vel s1 * 0.98\<rparr>;
          s3 = s2\<lparr>water_vel := constrain (water_vel s2) (- MAX_VELOCITY) MAX_VELOCITY\<rparr>
      in s3\<lparr>water_pos := water_pos s3 + water_vel s3\<rparr>)"

definition edge_reflection :: "state \<Rightarrow> state" where
  \<comment> \<open>lines 146 to 155\<close>
  "edge_reflection s =
     (if water_pos s < 0
      then s\<lparr>water_pos := 0, water_vel := - water_vel s * BOUNCE_DAMPING\<rparr>
      else if water_pos s \<ge> real NUM_LEDS
      then s\<lparr>water_pos := real NUM_LEDS - 0.001, water_vel := - water_vel s * BOUNCE_DAMPING\<rparr>
      else s)"

definition float_to_uint8 :: "real \<Rightarrow> 8 word" where
  \<comment> \<open>the implicit conversion at the call of \<open>nscale8\<close>: the fraction is dropped\<close>
  "float_to_uint8 x = word_of_int (if x < 0 then \<lceil>x\<rceil> else \<lfloor>x\<rfloor>)"

definition shimmer_of :: "nat \<Rightarrow> real \<Rightarrow> real" where
  "shimmer_of i offset = sin ((real i * 0.3) + offset) * 0.2 + 0.8"

definition intensity_of :: "nat \<Rightarrow> real \<Rightarrow> real \<Rightarrow> real" where
  \<comment> \<open>lines 166 to 174\<close>
  "intensity_of i pos offset =
     (let dist = \<bar>real i - pos\<bar>;
          intensity = exp (- dist * GLOW_DECAY)
      in intensity * shimmer_of i offset)"

text \<open>
  \<open>CRGB::nscale8\<close> belongs to the LED library; the rasterizer takes it as a parameter.
\<close>

function glow_loop :: "(CRGB \<Rightarrow> 8 word \<Rightarrow> CRGB) \<Rightarrow> nat \<Rightarrow> state \<Rightarrow> state" where
  "glow_loop nscale8 i s =
     (if i < NUM_LEDS
      then let intensity = intensity_of i (water_pos s) (flow_time_offset s);
               color = nscale8 WATER_COLOR (float_to_uint8 (intensity * 255))
           in glow_loop nscale8 (Suc i) (s\<lparr>leds := (leds s)[i := color]\<rparr>)
      else s)"
  by pat_completeness auto
termination
  by (relation "measure (\<lambda>(nscale8, i, s). NUM_LEDS - i)") auto

declare glow_loop.simps [simp del]

definition apply_glow :: "(CRGB \<Rightarrow> 8 word \<Rightarrow> CRGB) \<Rightarrow> state \<Rightarrow> state" where
  \<comment> \<open>lines 158 to 181: \<open>FastLED.clear()\<close> blanks the \<open>NUM_LEDS\<close> registered pixels\<close>
  "apply_glow nscale8 s =
     (let s1 = s\<lparr>leds := replicate NUM_LEDS Black\<rparr>;
          s2 = s1\<lparr>flow_time_offset := flow_time_offset s1 + 0.05\<rparr>
      in glow_loop nscale8 0 s2)"

definition update_led_strip :: "(CRGB \<Rightarrow> 8 word \<Rightarrow> CRGB) \<Rightarrow> state \<Rightarrow> state" where
  "update_led_strip nscale8 s = apply_glow nscale8 (edge_reflection (physics_update s))"


definition loop1 :: "(CRGB \<Rightarrow> 8 word \<Rightarrow> CRGB) \<Rightarrow> char_buffer \<Rightarrow> state \<Rightarrow> state \<times> char_buffer" where
  \<comment> \<open>the frame and the glyph bar of one display tick; \<open>sizeof(ascii_visual)\<close> is
      \<open>NUM_LEDS + 1\<close>\<close>
  "loop1 nscale8 ascii_visual s =
     (let s' = update_led_strip nscale8 s
      in (s', create_ascii_visualization (leds s') ascii_visual (int NUM_LEDS + 1)))"

text \<open>
  The two cores interleave. One step of the running system is one pass of \<open>loop\<close> with
  whatever the bus and the clock answer, or one pass of \<open>loop1\<close>.
\<close>

inductive step :: "state \<Rightarrow> state \<Rightarrow> bool" where
  core0: "step s (loop t s)"
| core1: "step s (fst (loop1 nscale8 ascii_visual s))"

section \<open>Core 1 in single precision\<close>

text \<open>
  \<open>update_led_strip\<close> again, now with every store rounded as the C++ types prescribe: an
  operation with a \<open>double\<close> literal is carried out in \<open>double\<close>, an operation on \<open>float\<close>
  operands in \<open>float\<close>, and an assignment to a \<open>float\<close> variable rounds to single
  precision. The definitions of the previous section are these with the roundings left
  out. \<open>sin\<close> and \<open>exp\<close> belong to the C library, which is not correctly rounded: like
  \<open>nscale8\<close> they are parameters, \<open>libm_sin x\<close> and \<open>libm_exp x\<close> being what the calls
  return for the argument \<open>x\<close>.
\<close>

definition BOUNCE_DAMPING_f32 :: real where
  \<comment> \<open>\<open>const float BOUNCE_DAMPING = 0.85\<close>: the \<open>double\<close> literal converted to \<open>float\<close>\<close>
  "BOUNCE_DAMPING_f32 = float32 (float64 0.85)"

definition physics_update_f32 :: "state \<Rightarrow> state" where
  \<comment> \<open>lines 133 to 143\<close>
  "physics_update_f32 s =
     (let tilt_accel = float32 (float64 (g_tilt_x s * float64 0.2));
          s1 = s\<lparr>water_vel := float32 (water_vel s + tilt_accel)\<rparr>;
          s2 = s1\<lparr>water_vel := float32 (float64 (water_vel s1 * float64 0.98))\<rparr>;
          s3 = s2\<lparr>water_vel := constrain (water_vel s2) (- MAX_VELOCITY) MAX_VELOCITY\<rparr>
      in s3\<lparr>water_pos := float32 (water_pos s3 + water_vel s3)\<rparr>)"

definition edge_reflection_f32 :: "state \<Rightarrow> state" where
  \<comment> \<open>lines 146 to 155\<close>
  "edge_reflection_f32 s =
     (if water_pos s < 0
      then s\<lparr>water_pos := 0, water_vel := float32 (- water_vel s * BOUNCE_DAMPING_f32)\<rparr>
      else if water_pos s \<ge> real NUM_LEDS
      then s\<lparr>water_pos := float32 (float64 (real NUM_LEDS - float64 0.001)),
             water_vel := float32 (- water_vel s * BOUNCE_DAMPING_f32)\<rparr>
      else s)"

definition shimmer_f32 :: "(real \<Rightarrow> real) \<Rightarrow> nat \<Rightarrow> real \<Rightarrow> real" where
  \<comment> \<open>line 173: \<open>double\<close> arithmetic throughout, stored in \<open>float shimmer\<close>\<close>
  "shimmer_f32 libm_sin i offset =
     float32 (float64 (float64 (libm_sin (float64 (float64 (real i * float64 0.3) + offset))
       * float64 0.2) + float64 0.8))"

definition intensity_f32 :: "(real \<Rightarrow> real) \<Rightarrow> (real \<Rightarrow> real) \<Rightarrow> nat \<Rightarrow> real \<Rightarrow> real \<Rightarrow> real" where
  \<comment> \<open>lines 166 to 174\<close>
  "intensity_f32 libm_sin libm_exp i pos offset =
     (let dist = \<bar>float32 (real i - pos)\<bar>;
          intensity = float32 (libm_exp (float32 (- dist * GLOW_DECAY)))
      in float32 (intensity * shimmer_f32 libm_sin i offset))"

function glow_loop_f32 ::
  "(real \<Rightarrow> real) \<Rightarrow> (real \<Rightarrow> real) \<Rightarrow> (CRGB \<Rightarrow> 8 word \<Rightarrow> CRGB) \<Rightarrow> nat \<Rightarrow> state \<Rightarrow> state" where
  "glow_loop_f32 libm_sin libm_exp nscale8 i s =
     (if i < NUM_LEDS
      then let intensity = intensity_f32 libm_sin libm_exp i (water_pos s) (flow_time_offset s);
               color = nscale8 WATER_COLOR (float_to_uint8 (float32 (intensity * 255)))
           in glow_loop_f32 libm_sin libm_exp nscale8 (Suc i) (s\<lparr>leds := (leds s)[i := color]\<rparr>)
      else s)"
  by pat_completeness auto
termination
  by (relation "measure (\<lambda>(libm_sin, libm_exp, nscale8, i, s). NUM_LEDS - i)") auto

declare glow_loop_f32.simps [simp del]

definition apply_glow_f32 ::
  "(real \<Rightarrow> real) \<Rightarrow> (real \<Rightarrow> real) \<Rightarrow> (CRGB \<Rightarrow> 8 word \<Rightarrow> CRGB) \<Rightarrow> state \<Rightarrow> state" where
  \<comment> \<open>lines 158 to 181\<close>
  "apply_glow_f32 libm_sin libm_exp nscale8 s =
     (let s1 = s\<lparr>leds := replicate NUM_LEDS Black\<rparr>;
          s2 = s1\<lparr>flow_time_offset := float32 (float64 (flow_time_offset s1 + float64 0.05))\<rparr>
      in glow_loop_f32 libm_sin libm_exp nscale8 0 s2)"

definition update_led_strip_f32 ::
  "(real \<Rightarrow> real) \<Rightarrow> (real \<Rightarrow> real) \<Rightarrow> (CRGB \<Rightarrow> 8 word \<Rightarrow> CRGB) \<Rightarrow> state \<Rightarrow> state" where
  "update_led_strip_f32 libm_sin libm_exp nscale8 s =
     apply_glow_f32 libm_sin libm_exp nscale8 (edge_reflection_f32 (physics_update_f32 s))"

fun ticks_f32 ::
  "(real \<Rightarrow> real) \<Rightarrow> (real \<Rightarrow> real) \<Rightarrow> (CRGB \<Rightarrow> 8 word \<Rightarrow> CRGB) \<Rightarrow> nat \<Rightarrow> state \<Rightarrow> state" where
  \<comment> \<open>\<open>n\<close> animation ticks in a row, the tilt left as it is\<close>
  "ticks_f32 libm_sin libm_exp nscale8 0 s = s"
| "ticks_f32 libm_sin libm_exp nscale8 (Suc n) s =
     update_led_strip_f32 libm_sin libm_exp nscale8 (ticks_f32 libm_sin libm_exp nscale8 n s)"

section \<open>Properties of the rounding\<close>

lemma round_even_error: "\<bar>of_int (round_even y) - y\<bar> \<le> 1 / 2"
  unfolding round_even_def Let_def by (auto simp: abs_le_iff; linarith)

lemma two_powr_of_int: "2 powr (of_int k) = (2::real) powi k"
  by (simp add: powr_real_of_int power_int_def power_inverse inverse_eq_divide power_one_over)

lemma binade_bounds:
  assumes "x \<noteq> 0"
  shows "2 powi (binade x) \<le> \<bar>x\<bar>" and "\<bar>x\<bar> < 2 powi (binade x + 1)"
proof -
  have "0 < \<bar>x\<bar>" using assms by simp
  then have "2 powr (of_int (binade x)) \<le> \<bar>x\<bar> \<and> \<bar>x\<bar> < 2 powr (of_int (binade x + 1))"
    using floor_log_eq_powr_iff [of "\<bar>x\<bar>" 2 "binade x"] by (simp add: binade_def)
  then show "2 powi (binade x) \<le> \<bar>x\<bar>" and "\<bar>x\<bar> < 2 powi (binade x + 1)"
    by (simp_all only: two_powr_of_int)
qed

lemma binade_eqI:
  assumes "2 powi e \<le> \<bar>x\<bar>" "\<bar>x\<bar> < 2 powi (e + 1)"
  shows "binade x = e"
proof -
  have "0 < (2::real) powi e" by simp
  with assms have pos: "0 < \<bar>x\<bar>" by linarith
  have "2 powr (of_int e) \<le> \<bar>x\<bar> \<and> \<bar>x\<bar> < 2 powr (of_int (e + 1))"
    using assms by (simp only: two_powr_of_int)
  then show ?thesis
    using floor_log_eq_powr_iff [of "\<bar>x\<bar>" 2 e] pos by (simp add: binade_def)
qed

lemma round_to_zero [simp]: "round_to p emin 0 = 0"
  by (simp add: round_to_def)

lemma round_to_error:
  "\<bar>round_to p emin x - x\<bar> \<le> 2 powi (max emin (binade x) - (int p - 1)) / 2"
proof (cases "x = 0")
  case True
  then show ?thesis by simp
next
  case False
  define u :: real where "u = 2 powi (max emin (binade x) - (int p - 1))"
  have u: "0 < u" by (simp add: u_def)
  have "round_to p emin x = of_int (round_even (x / u)) * u"
    using False unfolding round_to_def Let_def u_def by simp
  then have "round_to p emin x - x = (of_int (round_even (x / u)) - x / u) * u"
    using u by (simp add: field_simps)
  then have "\<bar>round_to p emin x - x\<bar> = \<bar>of_int (round_even (x / u)) - x / u\<bar> * u"
    using u by (simp add: abs_mult)
  also have "\<dots> \<le> (1 / 2) * u"
    using round_even_error [of "x / u"] u by (intro mult_right_mono) simp_all
  finally show ?thesis by (simp add: u_def)
qed

lemma round_to_error_bound:
  "\<bar>round_to p emin x - x\<bar> \<le> 2 powi (- int p) * \<bar>x\<bar> + 2 powi (emin - int p)"
proof (cases "x = 0")
  case True
  then show ?thesis by simp
next
  case False
  have half: "(2::real) powi (k - (int p - 1)) / 2 = 2 powi (k - int p)" for k
    by (simp add: power_int_diff power_int_add algebra_simps)
  show ?thesis
  proof (cases "emin \<le> binade x")
    case True
    then have m: "max emin (binade x) = binade x" by simp
    have "\<bar>round_to p emin x - x\<bar> \<le> 2 powi (binade x - int p)"
      using round_to_error [of p emin x] unfolding m half .
    also have "\<dots> = 2 powi (- int p) * 2 powi (binade x)"
      by (simp add: power_int_diff power_int_minus field_simps)
    also have "\<dots> \<le> 2 powi (- int p) * \<bar>x\<bar>"
      using binade_bounds(1) [OF False] by (intro mult_left_mono) simp_all
    also have "\<dots> \<le> 2 powi (- int p) * \<bar>x\<bar> + 2 powi (emin - int p)"
      by simp
    finally show ?thesis .
  next
    case False
    then have m: "max emin (binade x) = emin" by simp
    have "\<bar>round_to p emin x - x\<bar> \<le> 2 powi (emin - int p)"
      using round_to_error [of p emin x] unfolding m half .
    also have "\<dots> \<le> 2 powi (- int p) * \<bar>x\<bar> + 2 powi (emin - int p)"
      by simp
    finally show ?thesis .
  qed
qed

lemma float32_error: "\<bar>float32 x - x\<bar> \<le> \<bar>x\<bar> / 2 ^ 24 + 1 / 2 ^ 150"
proof -
  have "(2::real) powi (- 126 - int 24) = 1 / 2 ^ 150"
    by simp
  moreover have "(2::real) powi (- int 24) * \<bar>x\<bar> = \<bar>x\<bar> / 2 ^ 24"
    by simp
  ultimately show ?thesis
    using round_to_error_bound [of 24 "- 126" x] unfolding float32_def by linarith
qed

lemma float64_error: "\<bar>float64 x - x\<bar> \<le> \<bar>x\<bar> / 2 ^ 53 + 1 / 2 ^ 150"
proof -
  have "(2::real) powi (- 1022 - int 53) \<le> 2 powi (- 150)"
    by (rule power_int_increasing) simp_all
  also have "\<dots> = 1 / 2 ^ 150"
    by simp
  finally have "(2::real) powi (- 1022 - int 53) \<le> 1 / 2 ^ 150" .
  moreover have "(2::real) powi (- int 53) * \<bar>x\<bar> = \<bar>x\<bar> / 2 ^ 53"
    by simp
  ultimately show ?thesis
    using round_to_error_bound [of 53 "- 1022" x] unfolding float64_def by linarith
qed

lemma round_to_in_binade:
  assumes "2 powi e \<le> \<bar>x\<bar>" "\<bar>x\<bar> < 2 powi (e + 1)" "emin \<le> e"
  shows "round_to p emin x = of_int (round_even (x / 2 powi (e - (int p - 1)))) * 2 powi (e - (int p - 1))"
proof -
  have "0 < (2::real) powi e" by simp
  with assms(1) have "0 < \<bar>x\<bar>" by linarith
  then have "x \<noteq> 0" by auto
  moreover have "max emin (binade x) = e"
    using binade_eqI [OF assms(1,2)] assms(3) by simp
  ultimately show ?thesis
    by (simp add: round_to_def Let_def)
qed

lemma float64_in_binade:
  "2 powi e \<le> \<bar>x\<bar> \<Longrightarrow> \<bar>x\<bar> < 2 powi (e + 1) \<Longrightarrow> - 1022 \<le> e \<Longrightarrow>
     float64 x = of_int (round_even (x / 2 powi (e - 52))) * 2 powi (e - 52)"
  using round_to_in_binade [of e x "- 1022" 53] by (simp add: float64_def)

lemma float32_in_binade:
  "2 powi e \<le> \<bar>x\<bar> \<Longrightarrow> \<bar>x\<bar> < 2 powi (e + 1) \<Longrightarrow> - 126 \<le> e \<Longrightarrow>
     float32 x = of_int (round_even (x / 2 powi (e - 23))) * 2 powi (e - 23)"
  using round_to_in_binade [of e x "- 126" 24] by (simp add: float32_def)

lemma float32_abs_le: "\<bar>float32 x\<bar> \<le> \<bar>x\<bar> + \<bar>x\<bar> / 2 ^ 24 + 1 / 2 ^ 150"
  using float32_error [of x] by linarith

lemma float64_abs_le: "\<bar>float64 x\<bar> \<le> \<bar>x\<bar> + \<bar>x\<bar> / 2 ^ 53 + 1 / 2 ^ 150"
  using float64_error [of x] by linarith

lemma float32_zero [simp]: "float32 0 = 0"
  by (simp add: float32_def)

lemma float64_zero [simp]: "float64 0 = 0"
  by (simp add: float64_def)

lemma round_even_cases: "round_even z = \<lfloor>z\<rfloor> \<or> round_even z = \<lfloor>z\<rfloor> + 1"
  by (simp add: round_even_def Let_def)

lemma round_even_of_int [simp]: "round_even (of_int k) = k"
  by (simp add: round_even_def Let_def)

lemma round_even_mono: "x \<le> y \<Longrightarrow> round_even x \<le> round_even y"
proof -
  assume xy: "x \<le> y"
  then have fl: "\<lfloor>x\<rfloor> \<le> \<lfloor>y\<rfloor>" by (rule floor_mono)
  show ?thesis
  proof (cases "\<lfloor>x\<rfloor> = \<lfloor>y\<rfloor>")
    case True
    with xy show ?thesis
      by (auto simp: round_even_def Let_def)
  next
    case False
    with fl have "\<lfloor>x\<rfloor> + 1 \<le> \<lfloor>y\<rfloor>" by simp
    moreover have "round_even x \<le> \<lfloor>x\<rfloor> + 1" using round_even_cases [of x] by auto
    moreover have "\<lfloor>y\<rfloor> \<le> round_even y" using round_even_cases [of y] by auto
    ultimately show ?thesis by linarith
  qed
qed

lemma round_even_le: "z \<le> of_int k \<Longrightarrow> round_even z \<le> k"
  using round_even_mono [of z "of_int k"] by simp

lemma round_even_ge: "of_int k \<le> z \<Longrightarrow> k \<le> round_even z"
  using round_even_mono [of "of_int k" z] by simp

lemma round_even_minus: "round_even (- z) = - round_even z"
proof (cases "z = of_int \<lfloor>z\<rfloor>")
  case True
  then obtain k where k: "z = of_int k" ..
  then have "- z = of_int (- k)" by simp
  then have "round_even (- z) = - k" by (simp only: round_even_of_int)
  with k show ?thesis by simp
next
  case False
  define n where "n = \<lfloor>z\<rfloor>"
  define f where "f = z - of_int n"
  have fl: "\<lfloor>- z\<rfloor> = - n - 1"
    using False by (simp add: floor_minus ceiling_altdef n_def)
  have fr: "- z - of_int (- n - 1) = 1 - f"
    by (simp add: f_def)
  have pos: "z = of_int n + f"
    by (simp add: f_def)
  have r: "round_even z = (if f < 1 / 2 then n else if 1 / 2 < f then n + 1 else if even n then n else n + 1)"
    unfolding round_even_def Let_def n_def [symmetric] f_def [symmetric] ..
  have m: "round_even (- z) =
      (if 1 - f < 1 / 2 then - n - 1 else if 1 / 2 < 1 - f then - n - 1 + 1
       else if even (- n - 1) then - n - 1 else - n - 1 + 1)"
    unfolding round_even_def Let_def fl fr ..
  consider "f < 1 / 2" | "1 / 2 < f" | "f = 1 / 2" by linarith
  then show ?thesis
  proof cases
    case 1
    then show ?thesis unfolding r m by simp
  next
    case 2
    then show ?thesis unfolding r m by simp
  next
    case 3
    then show ?thesis unfolding r m by simp
  qed
qed

lemma binade_minus [simp]: "binade (- x) = binade x"
  by (simp add: binade_def)

lemma round_to_minus: "round_to p emin (- x) = - round_to p emin x"
  by (simp add: round_to_def Let_def round_even_minus)

lemma round_to_nonneg: "0 \<le> x \<Longrightarrow> 0 \<le> round_to p emin x"
proof -
  assume "0 \<le> x"
  have "0 \<le> round_even (x / u)" if "0 < u" for u :: real
    using that \<open>0 \<le> x\<close> by (intro round_even_ge) simp
  then show ?thesis
    by (simp add: round_to_def Let_def)
qed

lemma binade_mono: "0 < x \<Longrightarrow> x \<le> y \<Longrightarrow> binade x \<le> binade y"
  unfolding binade_def by (intro floor_mono) simp

lemma two_powi_div: "(2::real) powi m / 2 powi n = 2 powi (m - n)"
  by (simp add: power_int_diff)

lemma two_powi_mult: "(2::real) powi m * 2 powi n = 2 powi (m + n)"
  by (simp add: power_int_add)

lemma two_powi_div': "k = m - n \<Longrightarrow> (2::real) powi m / 2 powi n = 2 powi k"
  by (simp add: two_powi_div)

lemma two_powi_mult': "k = m + n \<Longrightarrow> (2::real) powi m * 2 powi n = 2 powi k"
  by (simp add: two_powi_mult)

lemma two_powi_nat: "0 \<le> k \<Longrightarrow> (2::real) powi k = of_int (2 ^ nat k)"
  by (simp add: power_int_def)

lemma round_to_mono_pos:
  assumes p: "0 < p" and x: "0 < x" and xy: "x \<le> y"
  shows "round_to p emin x \<le> round_to p emin y"
proof -
  define q where "q = int p - 1"
  define ex where "ex = max emin (binade x)"
  define ey where "ey = max emin (binade y)"
  have q: "0 \<le> q" using p by (simp add: q_def)
  have y: "0 < y" using x xy by linarith
  have rx: "round_to p emin x = of_int (round_even (x / 2 powi (ex - q))) * 2 powi (ex - q)"
    using x by (simp add: round_to_def Let_def ex_def q_def)
  have ry: "round_to p emin y = of_int (round_even (y / 2 powi (ey - q))) * 2 powi (ey - q)"
    using y by (simp add: round_to_def Let_def ey_def q_def)
  have exy: "ex \<le> ey"
    using binade_mono [OF x xy] by (simp add: ex_def ey_def)
  show ?thesis
  proof (cases "ex = ey")
    case True
    have "x / 2 powi (ey - q) \<le> y / 2 powi (ey - q)"
      using xy by (intro divide_right_mono) simp_all
    then have "round_even (x / 2 powi (ey - q)) \<le> round_even (y / 2 powi (ey - q))"
      by (rule round_even_mono)
    then show ?thesis
      unfolding rx ry True by (intro mult_right_mono) simp_all
  next
    case False
    with exy have less: "ex + 1 \<le> ey" by simp
    then have eyb: "ey = binade y" by (simp add: ex_def ey_def)
    have "x < 2 powi (binade x + 1)"
      using binade_bounds(2) [of x] x by simp
    also have "\<dots> \<le> 2 powi (ex + 1)"
      by (intro power_int_increasing) (simp_all add: ex_def)
    finally have xlt: "x < 2 powi (ex + 1)" .
    have "x / 2 powi (ex - q) \<le> 2 powi (ex + 1) / 2 powi (ex - q)"
      using xlt by (intro divide_right_mono) simp_all
    also have "\<dots> = 2 powi (q + 1)"
      by (rule two_powi_div') simp
    also have "\<dots> = of_int (2 ^ nat (q + 1))"
      using q by (intro two_powi_nat) simp
    finally have "round_even (x / 2 powi (ex - q)) \<le> 2 ^ nat (q + 1)"
      by (rule round_even_le)
    then have "of_int (round_even (x / 2 powi (ex - q))) \<le> (of_int (2 ^ nat (q + 1)) :: real)"
      by (simp only: of_int_le_iff)
    then have "round_to p emin x \<le> of_int (2 ^ nat (q + 1)) * 2 powi (ex - q)"
      unfolding rx by (intro mult_right_mono) simp_all
    also have "\<dots> = 2 powi (q + 1) * 2 powi (ex - q)"
      using q by (subst two_powi_nat [of "q + 1"]) simp_all
    also have "\<dots> = 2 powi (ex + 1)"
      by (rule two_powi_mult') simp
    also have "\<dots> \<le> 2 powi ey"
      using less by (intro power_int_increasing) simp_all
    finally have upper: "round_to p emin x \<le> 2 powi ey" .
    have "2 powi ey \<le> y"
      using binade_bounds(1) [of y] y by (simp add: eyb)
    then have "2 powi ey / 2 powi (ey - q) \<le> y / 2 powi (ey - q)"
      by (intro divide_right_mono) simp_all
    moreover have "2 powi ey / 2 powi (ey - q) = (2::real) powi q"
      by (rule two_powi_div') simp
    moreover have "(2::real) powi q = of_int (2 ^ nat q)"
      using q by (rule two_powi_nat)
    ultimately have "of_int (2 ^ nat q) \<le> y / 2 powi (ey - q)"
      by simp
    then have "2 ^ nat q \<le> round_even (y / 2 powi (ey - q))"
      by (rule round_even_ge)
    then have "(of_int (2 ^ nat q) :: real) \<le> of_int (round_even (y / 2 powi (ey - q)))"
      by (simp only: of_int_le_iff)
    then have "of_int (2 ^ nat q) * 2 powi (ey - q) \<le> round_to p emin y"
      unfolding ry by (intro mult_right_mono) simp_all
    moreover have "of_int (2 ^ nat q) * 2 powi (ey - q) = (2::real) powi ey"
    proof -
      have "of_int (2 ^ nat q) * 2 powi (ey - q) = (2::real) powi q * 2 powi (ey - q)"
        using two_powi_nat [OF q] by simp
      also have "\<dots> = 2 powi ey"
        by (rule two_powi_mult') simp
      finally show ?thesis .
    qed
    ultimately have "2 powi ey \<le> round_to p emin y"
      by simp
    with upper show ?thesis
      by linarith
  qed
qed

lemma round_to_mono:
  assumes "0 < p" "x \<le> y"
  shows "round_to p emin x \<le> round_to p emin y"
proof -
  consider "x \<le> 0" "0 \<le> y" | "0 < x" | "y < 0" using assms(2) by linarith
  then show ?thesis
  proof cases
    case 1
    have "round_to p emin x \<le> 0"
      using round_to_nonneg [of "- x" p emin] 1(1) by (simp add: round_to_minus)
    moreover have "0 \<le> round_to p emin y"
      using 1(2) by (rule round_to_nonneg)
    ultimately show ?thesis by linarith
  next
    case 2
    then show ?thesis using assms by (intro round_to_mono_pos)
  next
    case 3
    then have "0 < - y" "- y \<le> - x" using assms(2) by simp_all
    then have "round_to p emin (- y) \<le> round_to p emin (- x)"
      using assms(1) by (intro round_to_mono_pos)
    then show ?thesis by (simp add: round_to_minus)
  qed
qed

lemma float32_mono: "x \<le> y \<Longrightarrow> float32 x \<le> float32 y"
  unfolding float32_def by (intro round_to_mono) simp_all

lemma float64_mono: "x \<le> y \<Longrightarrow> float64 x \<le> float64 y"
  unfolding float64_def by (intro round_to_mono) simp_all

lemma round_to_subnormal:
  assumes "x \<noteq> 0" "\<bar>x\<bar> < 2 powi emin"
  shows "round_to p emin x = of_int (round_even (x / 2 powi (emin - (int p - 1)))) * 2 powi (emin - (int p - 1))"
proof -
  have "(2::real) powi (binade x) < 2 powi emin"
    using binade_bounds(1) [OF assms(1)] assms(2) by linarith
  moreover have "(2::real) powi emin \<le> 2 powi (binade x)" if "emin \<le> binade x"
    using that by (intro power_int_increasing) simp_all
  ultimately have "binade x < emin"
    by fastforce
  then have "max emin (binade x) = emin"
    by simp
  with assms(1) show ?thesis
    by (simp add: round_to_def Let_def)
qed

lemma float32_subnormal:
  "x \<noteq> 0 \<Longrightarrow> \<bar>x\<bar> < 2 powi (- 126) \<Longrightarrow>
     float32 x = of_int (round_even (x / 2 powi (- 149))) * 2 powi (- 149)"
  using round_to_subnormal [of x "- 126" 24] by (simp add: float32_def)

section \<open>Properties of the text visualizer\<close>

lemma ascii_loop_cells:
  "cells (ascii_loop px i buffer) j =
     (if i \<le> j \<and> j < NUM_LEDS then glyph (peak (px ! j)) else cells buffer j)"
proof (induction px i buffer rule: ascii_loop.induct)
  case (1 px i buffer)
  show ?case
  proof (cases "i < NUM_LEDS")
    case True
    then show ?thesis
      using "1.IH" [OF True] by (subst ascii_loop.simps) (auto simp: poke_def)
  next
    case False
    then show ?thesis by (subst ascii_loop.simps) auto
  qed
qed

lemma ascii_loop_stores:
  "stores (ascii_loop px i buffer) = stores buffer @ [i..<NUM_LEDS]"
proof (induction px i buffer rule: ascii_loop.induct)
  case (1 px i buffer)
  show ?case
  proof (cases "i < NUM_LEDS")
    case True
    then show ?thesis
      using "1.IH" [OF True] by (subst ascii_loop.simps) (simp add: poke_def upt_conv_Cons)
  next
    case False
    then show ?thesis by (subst ascii_loop.simps) simp
  qed
qed

lemma glyph_thresholds:
  "glyph x =
     (if 180 < unat x then CHR ''~''
      else if 50 < unat x then CHR ''=''
      else if 10 < unat x then CHR ''_''
      else CHR '' '')"
  by (simp add: glyph_def word_less_nat_alt)

lemma unat_peak: "unat (peak c) = max (max (unat (r c)) (unat (g c))) (unat (b c))"
  unfolding peak_def max_def word_le_nat_alt by simp

lemma glyph_values:
  "glyph 200 = CHR ''~'' \<and> glyph 100 = CHR ''='' \<and> glyph 20 = CHR ''_'' \<and> glyph 5 = CHR '' ''"
  by (simp add: glyph_def)

text \<open>
  C9. On a strip of \<open>NUM_LEDS\<close> pixels and with room in the buffer, the glyph stored for
  a pixel depends on its largest channel through fixed thresholds: above 180 the glyph
  is \<open>~\<close>, else above 50 it is \<open>=\<close>, else above 10 it is \<open>_\<close>, else a blank. Brightness
  200, 100, 20 and 5 give \<open>~\<close>, \<open>=\<close>, \<open>_\<close> and a blank.
\<close>
theorem glyph_mapping:
  "(length px = NUM_LEDS \<and> int NUM_LEDS + 1 \<le> buffer_size \<and> i < NUM_LEDS \<longrightarrow>
      cells (create_ascii_visualization px buffer buffer_size) i =
        (let brightness = max (max (unat (r (px ! i))) (unat (g (px ! i)))) (unat (b (px ! i)))
         in if 180 < brightness then CHR ''~''
            else if 50 < brightness then CHR ''=''
            else if 10 < brightness then CHR ''_''
            else CHR '' ''))
   \<and> glyph 200 = CHR ''~'' \<and> glyph 100 = CHR ''='' \<and> glyph 20 = CHR ''_'' \<and> glyph 5 = CHR '' ''"
proof -
  have "cells (create_ascii_visualization px buffer buffer_size) i = glyph (peak (px ! i))"
    if "int NUM_LEDS + 1 \<le> buffer_size" "i < NUM_LEDS"
    using that by (simp add: create_ascii_visualization_def poke_def ascii_loop_cells)
  then show ?thesis
    unfolding glyph_thresholds [of "peak (px ! i)"] unat_peak Let_def
    using glyph_values by blast
qed

theorem glyph_mapping_witness:
  "length (replicate 29 \<lparr>r = 0, g = 0, b = 5\<rparr> @ [\<lparr>r = 0, g = 100, b = 7\<rparr>]) = NUM_LEDS
   \<and> int NUM_LEDS + 1 \<le> 31 \<and> 29 < NUM_LEDS
   \<and> cells (create_ascii_visualization
        (replicate 29 \<lparr>r = 0, g = 0, b = 5\<rparr> @ [\<lparr>r = 0, g = 100, b = 7\<rparr>])
        \<lparr>cells = \<lambda>_. CHR ''#'', stores = []\<rparr> 31) 29 = CHR ''=''"
  using glyph_mapping
    [of "replicate 29 \<lparr>r = 0, g = 0, b = 5\<rparr> @ [\<lparr>r = 0, g = 100, b = 7\<rparr>]" 31 29
        "\<lparr>cells = \<lambda>_. CHR ''#'', stores = []\<rparr>"]
  by (simp add: NUM_LEDS_def nth_append)

text \<open>
  C10. The size guard, on a strip of \<open>NUM_LEDS\<close> pixels: with \<open>buffer_size\<close> below
  \<open>NUM_LEDS + 1\<close> the call returns the buffer as it was, with no store. Otherwise the stores are to the indices
  \<open>0, \<dots>, NUM_LEDS - 1\<close>, once each and in this order, and then to \<open>NUM_LEDS\<close>: each of
  the first \<open>NUM_LEDS\<close> cells holds the glyph of its pixel, cell \<open>NUM_LEDS\<close> holds the
  terminator, and every cell beyond \<open>NUM_LEDS\<close> is untouched.
\<close>
theorem size_guard:
  "length px = NUM_LEDS \<Longrightarrow>
   (buffer_size < int NUM_LEDS + 1 \<longrightarrow> create_ascii_visualization px buffer buffer_size = buffer)
   \<and> (int NUM_LEDS + 1 \<le> buffer_size \<longrightarrow>
        (let buffer' = create_ascii_visualization px buffer buffer_size
         in stores buffer' = stores buffer @ [0..<NUM_LEDS] @ [NUM_LEDS]
          \<and> (\<forall>i<NUM_LEDS. cells buffer' i = glyph (peak (px ! i)))
          \<and> cells buffer' NUM_LEDS = CHR 0x00
          \<and> (\<forall>j>NUM_LEDS. cells buffer' j = cells buffer j)))"
  by (simp add: create_ascii_visualization_def poke_def ascii_loop_cells ascii_loop_stores Let_def)

theorem size_guard_witness:
  "length (replicate 30 \<lparr>r = 0, g = 0, b = 200\<rparr>) = NUM_LEDS
   \<and> (30::int) < int NUM_LEDS + 1
   \<and> create_ascii_visualization (replicate 30 \<lparr>r = 0, g = 0, b = 200\<rparr>)
        \<lparr>cells = \<lambda>_. CHR ''#'', stores = []\<rparr> 30 = \<lparr>cells = \<lambda>_. CHR ''#'', stores = []\<rparr>
   \<and> int NUM_LEDS + 1 \<le> 31
   \<and> stores (create_ascii_visualization (replicate 30 \<lparr>r = 0, g = 0, b = 200\<rparr>)
        \<lparr>cells = \<lambda>_. CHR ''#'', stores = []\<rparr> 31) = [0..<30] @ [30]
   \<and> 29 < NUM_LEDS
   \<and> cells (create_ascii_visualization (replicate 30 \<lparr>r = 0, g = 0, b = 200\<rparr>)
        \<lparr>cells = \<lambda>_. CHR ''#'', stores = []\<rparr> 31) 29 = CHR ''~''
   \<and> cells (create_ascii_visualization (replicate 30 \<lparr>r = 0, g = 0, b = 200\<rparr>)
        \<lparr>cells = \<lambda>_. CHR ''#'', stores = []\<rparr> 31) 30 = CHR 0x00
   \<and> NUM_LEDS < 31
   \<and> cells (create_ascii_visualization (replicate 30 \<lparr>r = 0, g = 0, b = 200\<rparr>)
        \<lparr>cells = \<lambda>_. CHR ''#'', stores = []\<rparr> 31) 31 = CHR ''#''"
proof -
  have len: "length (replicate 30 \<lparr>r = 0, g = 0, b = 200\<rparr>) = NUM_LEDS"
    by (simp add: NUM_LEDS_def)
  show ?thesis
    using size_guard [OF len, of 30 "\<lparr>cells = \<lambda>_. CHR ''#'', stores = []\<rparr>"]
      size_guard [OF len, of 31 "\<lparr>cells = \<lambda>_. CHR ''#'', stores = []\<rparr>"]
    by (simp add: NUM_LEDS_def Let_def glyph_def peak_def)
qed

section \<open>Properties of the sensor loop\<close>

subsection \<open>Decoding the sample\<close>

lemma or_bytes: "push_bit 8 (uint (hi :: 8 word)) OR uint (lo :: 8 word) = 256 * uint hi + uint lo"
proof -
  have lo: "take_bit 8 (uint lo) = uint lo"
    by (rule take_bit_int_eq_self) (use uint_bounded [of lo] in simp_all)
  have "push_bit 8 (uint hi) OR uint lo = concat_bit 8 (uint lo) (uint hi)"
    by (simp add: concat_bit_def lo or.commute)
  also have "\<dots> = uint lo + push_bit 8 (uint hi)"
    by (simp add: concat_bit_eq lo)
  finally show ?thesis
    by (simp add: push_bit_eq_mult)
qed

lemma int16_t_eq: "0 \<le> u \<Longrightarrow> u < 65536 \<Longrightarrow> int16_t u = (if u < 32768 then u else u - 65536)"
proof -
  assume u: "0 \<le> u" "u < 65536"
  have "int16_t u = (u + 32768) mod 65536 - 32768"
    by (simp add: int16_t_def sint_sbintrunc' signed_take_bit_eq_take_bit_shift take_bit_eq_mod)
  also have "\<dots> = (if u < 32768 then u else u - 65536)"
  proof (cases "u < 32768")
    case True
    with u have "(u + 32768) mod 65536 = u + 32768"
      by (intro mod_pos_pos_trivial) simp_all
    with True show ?thesis by simp
  next
    case False
    have "u + 32768 = (u - 32768) + 65536"
      by arith
    then have "(u + 32768) mod 65536 = ((u - 32768) + 65536) mod 65536"
      by (rule arg_cong)
    also have "\<dots> = (u - 32768) mod 65536"
      by (rule mod_add_self2)
    also from False u have "\<dots> = u - 32768"
      by (intro mod_pos_pos_trivial) simp_all
    finally show ?thesis using False by simp
  qed
  finally show ?thesis .
qed

lemma read_mpu6050_fails:
  "endTransmission w \<noteq> 0 \<or> length (delivered w) < 6 \<Longrightarrow> read_mpu6050 w = None"
  by (auto simp: read_mpu6050_def requestFrom_def Let_def)

lemma read_mpu6050_sample:
  assumes "endTransmission w = 0" "delivered w = hi # lo # rest" "4 \<le> length rest"
  shows "read_mpu6050 w =
     Some (real_of_int (let u = 256 * uint hi + uint lo in if u < 32768 then u else u - 65536) / 16384)"
proof -
  have take: "take 6 (delivered w) = hi # lo # take 4 rest"
    using assms by (simp add: take_Cons')
  have len: "length (take 6 (delivered w)) = 6"
    using assms by simp
  have range: "0 \<le> 256 * uint hi + uint lo" "256 * uint hi + uint lo < 65536"
    using uint_bounded [of hi] uint_bounded [of lo] uint_ge_0 [of hi] uint_ge_0 [of lo] by simp_all
  show ?thesis
    unfolding read_mpu6050_def requestFrom_def Let_def
    using assms(1) len by (simp add: take or_bytes int16_t_eq [OF range])
qed

subsection \<open>What a pass of either core leaves unchanged\<close>

lemma loop_connected [simp]: "g_sensor_connected (loop t s) = g_sensor_connected s"
  by (simp add: loop_def Let_def split: option.split)

lemma glow_loop_frame:
  "g_tilt_x (glow_loop f i s) = g_tilt_x s \<and>
   g_sensor_connected (glow_loop f i s) = g_sensor_connected s \<and>
   water_pos (glow_loop f i s) = water_pos s \<and>
   water_vel (glow_loop f i s) = water_vel s \<and>
   flow_time_offset (glow_loop f i s) = flow_time_offset s \<and>
   length (leds (glow_loop f i s)) = length (leds s)"
proof (induction f i s rule: glow_loop.induct)
  case (1 f i s)
  show ?case
  proof (cases "i < NUM_LEDS")
    case True
    then show ?thesis
      using "1.IH" [OF True refl refl] by (subst (1 2 3 4 5 6) glow_loop.simps) (simp add: Let_def)
  next
    case False
    then show ?thesis by (subst (1 2 3 4 5 6) glow_loop.simps) simp
  qed
qed

lemma apply_glow_frame:
  "g_tilt_x (apply_glow f s) = g_tilt_x s \<and>
   g_sensor_connected (apply_glow f s) = g_sensor_connected s \<and>
   water_pos (apply_glow f s) = water_pos s \<and>
   water_vel (apply_glow f s) = water_vel s \<and>
   flow_time_offset (apply_glow f s) = flow_time_offset s + 0.05 \<and>
   length (leds (apply_glow f s)) = NUM_LEDS"
  by (simp add: apply_glow_def Let_def glow_loop_frame)

lemma update_led_strip_connected [simp]:
  "g_sensor_connected (update_led_strip f s) = g_sensor_connected s"
  by (simp add: update_led_strip_def apply_glow_frame edge_reflection_def physics_update_def Let_def)

lemma update_led_strip_tilt [simp]:
  "g_tilt_x (update_led_strip f s) = g_tilt_x s"
  by (simp add: update_led_strip_def apply_glow_frame edge_reflection_def physics_update_def Let_def)

lemma step_connected: "step s s' \<Longrightarrow> g_sensor_connected s' = g_sensor_connected s"
  by (induction rule: step.induct) (simp_all add: loop1_def Let_def)

lemma steps_connected: "step\<^sup>*\<^sup>* s s' \<Longrightarrow> g_sensor_connected s' = g_sensor_connected s"
  by (induction rule: rtranclp_induct) (simp_all add: step_connected)

lemma setup_core0_connected [simp]: "g_sensor_connected (setup_core0 probe s) = (probe = 0)"
  by (simp add: setup_core0_def)

subsection \<open>The sensor tick and the connected flag\<close>

text \<open>
  C5. A sensor tick with the flag set: when the transmission is acknowledged and the six
  requested bytes arrive, the published tilt is the first two bytes, high byte first, read
  as a signed 16-bit integer and divided by 16384; when the transmission fails or fewer
  than six bytes arrive, the tick changes nothing and the tilt keeps its value.
\<close>
theorem hardware_tick_publishes_sample_or_keeps_value:
  "g_sensor_connected s \<Longrightarrow>
     (endTransmission (bus t) = 0 \<and> delivered (bus t) = hi # lo # rest \<and> 4 \<le> length rest \<longrightarrow>
        loop t s = s\<lparr>g_tilt_x :=
          real_of_int (let u = 256 * uint hi + uint lo in if u < 32768 then u else u - 65536) / 16384\<rparr>)
   \<and> (endTransmission (bus t) \<noteq> 0 \<or> length (delivered (bus t)) < 6 \<longrightarrow> loop t s = s)"
  by (auto simp: loop_def read_mpu6050_sample read_mpu6050_fails)

theorem hardware_tick_publishes_sample_or_keeps_value_witness:
  "g_sensor_connected (setup_core0 0 initial)
   \<and> g_tilt_x (loop \<lparr>bus = \<lparr>endTransmission = 0, delivered = [0xC0, 0x00, 1, 2, 3, 4]\<rparr>, millis = 7\<rparr>
        (setup_core0 0 initial)) = - 1
   \<and> loop \<lparr>bus = \<lparr>endTransmission = 0, delivered = [0xC0, 0x00, 1]\<rparr>, millis = 7\<rparr>
        (setup_core0 0 initial) = setup_core0 0 initial
   \<and> loop \<lparr>bus = \<lparr>endTransmission = 2, delivered = []\<rparr>, millis = 7\<rparr>
        (setup_core0 0 initial) = setup_core0 0 initial"
  using hardware_tick_publishes_sample_or_keeps_value
      [of "setup_core0 0 initial" "\<lparr>bus = \<lparr>endTransmission = 0, delivered = [0xC0, 0x00, 1, 2, 3, 4]\<rparr>, millis = 7\<rparr>"
          "0xC0" "0x00" "[1, 2, 3, 4]"]
    hardware_tick_publishes_sample_or_keeps_value
      [of "setup_core0 0 initial" "\<lparr>bus = \<lparr>endTransmission = 0, delivered = [0xC0, 0x00, 1]\<rparr>, millis = 7\<rparr>"]
    hardware_tick_publishes_sample_or_keeps_value
      [of "setup_core0 0 initial" "\<lparr>bus = \<lparr>endTransmission = 2, delivered = []\<rparr>, millis = 7\<rparr>"]
  by (simp add: setup_core0_def)

subsection \<open>The simulated tick\<close>







text \<open>
  C7. The flag is decided by the startup probe and by nothing else: in every state the
  system reaches after \<open>setup\<close>, over any interleaving of the two cores and any answers
  of the bus, the flag is set exactly when the probe was acknowledged. After an
  acknowledged probe every sensor tick takes the hardware path: a failed read leaves the
  state as it is and never publishes the simulated value.
\<close>
theorem connected_flag_fixed_at_startup:
  "step\<^sup>*\<^sup>* (setup_core0 probe s0) s \<Longrightarrow>
     g_sensor_connected s = (probe = 0)
     \<and> (probe = 0 \<longrightarrow>
          loop t s = (case read_mpu6050 (bus t) of
                        Some new_accel_x \<Rightarrow> s\<lparr>g_tilt_x := new_accel_x\<rparr>
                      | None \<Rightarrow> s))"
proof -
  assume "step\<^sup>*\<^sup>* (setup_core0 probe s0) s"
  then have "g_sensor_connected s = (probe = 0)"
    using steps_connected [of "setup_core0 probe s0" s] by simp
  then show ?thesis
    by (simp add: loop_def)
qed

theorem connected_flag_fixed_at_startup_witness:
  "step\<^sup>*\<^sup>* (setup_core0 0 initial)
        (loop \<lparr>bus = \<lparr>endTransmission = 3, delivered = []\<rparr>, millis = 20\<rparr> (setup_core0 0 initial))
   \<and> g_sensor_connected
        (loop \<lparr>bus = \<lparr>endTransmission = 3, delivered = []\<rparr>, millis = 20\<rparr> (setup_core0 0 initial))
   \<and> (0::8 word) = 0
   \<and> loop \<lparr>bus = \<lparr>endTransmission = 0, delivered = [1, 2]\<rparr>, millis = 40\<rparr>
        (loop \<lparr>bus = \<lparr>endTransmission = 3, delivered = []\<rparr>, millis = 20\<rparr> (setup_core0 0 initial))
      = loop \<lparr>bus = \<lparr>endTransmission = 3, delivered = []\<rparr>, millis = 20\<rparr> (setup_core0 0 initial)"
proof -
  let ?s = "setup_core0 0 initial"
  let ?t = "\<lparr>bus = \<lparr>endTransmission = 3, delivered = []\<rparr>, millis = 20\<rparr>"
  let ?u = "\<lparr>bus = \<lparr>endTransmission = 0, delivered = [1, 2]\<rparr>, millis = 40\<rparr>"
  have run: "step\<^sup>*\<^sup>* ?s (loop ?t ?s)"
    by (rule r_into_rtranclp) (rule step.core0)
  have "read_mpu6050 (bus ?u) = None"
    by (simp add: read_mpu6050_def requestFrom_def)
  then show ?thesis
    using run connected_flag_fixed_at_startup [OF run, of ?u] by simp
qed

section \<open>Properties of the physics integrator\<close>

lemma constrain_max_min: "low \<le> high \<Longrightarrow> constrain amt low high = max low (min high amt)"
  by (auto simp: constrain_def max_def min_def)

lemma physics_update_vel:
  "water_vel (physics_update s) = max (- 1) (min 1 (0.98 * (water_vel s + 0.2 * g_tilt_x s)))"
  by (simp add: physics_update_def Let_def MAX_VELOCITY_def constrain_max_min mult.commute)




lemma update_led_strip_pos:
  "water_pos (update_led_strip f s) = water_pos (edge_reflection (physics_update s))"
  by (simp add: update_led_strip_def apply_glow_frame)

lemma update_led_strip_vel:
  "water_vel (update_led_strip f s) = water_vel (edge_reflection (physics_update s))"
  by (simp add: update_led_strip_def apply_glow_frame)

lemma edge_reflection_pos_range:
  "0 \<le> water_pos (edge_reflection s) \<and> water_pos (edge_reflection s) < real NUM_LEDS"
  by (simp add: edge_reflection_def NUM_LEDS_def)

lemma edge_reflection_vel_bound:
  "\<bar>water_vel (edge_reflection s)\<bar> \<le> \<bar>water_vel s\<bar>"
proof -
  have "\<bar>- water_vel s * BOUNCE_DAMPING\<bar> = \<bar>water_vel s\<bar> * 0.85"
    by (simp add: BOUNCE_DAMPING_def abs_mult)
  also have "\<dots> \<le> \<bar>water_vel s\<bar>"
    by simp
  finally show ?thesis
    by (simp add: edge_reflection_def)
qed

lemma physics_update_vel_bound: "\<bar>water_vel (physics_update s)\<bar> \<le> 1"
  unfolding physics_update_vel by (simp add: abs_le_iff)

text \<open>
  C2. The bounds of the particle are preserved by a tick: from a position in \<open>[0, 30)\<close>,
  a velocity of magnitude at most 1 and a tilt in \<open>[-1, 1]\<close>, the position after the tick
  is again in \<open>[0, NUM_LEDS)\<close> and the velocity magnitude is at most \<open>MAX_VELOCITY\<close>.
\<close>
theorem tick_preserves_bounds:
  "0 \<le> water_pos s \<and> water_pos s < 30 \<Longrightarrow> \<bar>water_vel s\<bar> \<le> 1.0 \<Longrightarrow>
   - 1.0 \<le> g_tilt_x s \<and> g_tilt_x s \<le> 1.0 \<Longrightarrow>
     0 \<le> water_pos (update_led_strip nscale8 s)
     \<and> water_pos (update_led_strip nscale8 s) < real NUM_LEDS
     \<and> \<bar>water_vel (update_led_strip nscale8 s)\<bar> \<le> MAX_VELOCITY"
proof -
  have "\<bar>water_vel (update_led_strip nscale8 s)\<bar> \<le> \<bar>water_vel (physics_update s)\<bar>"
    unfolding update_led_strip_vel by (rule edge_reflection_vel_bound)
  also have "\<dots> \<le> MAX_VELOCITY"
    using physics_update_vel_bound [of s] by (simp add: MAX_VELOCITY_def)
  finally show ?thesis
    using edge_reflection_pos_range [of "physics_update s"] by (simp add: update_led_strip_pos)
qed

theorem tick_preserves_bounds_witness:
  "0 \<le> water_pos (initial\<lparr>g_tilt_x := 1, water_pos := 29.5, water_vel := 1\<rparr>)
   \<and> water_pos (initial\<lparr>g_tilt_x := 1, water_pos := 29.5, water_vel := 1\<rparr>) < 30
   \<and> \<bar>water_vel (initial\<lparr>g_tilt_x := 1, water_pos := 29.5, water_vel := 1\<rparr>)\<bar> \<le> 1.0
   \<and> - 1.0 \<le> g_tilt_x (initial\<lparr>g_tilt_x := 1, water_pos := 29.5, water_vel := 1\<rparr>)
   \<and> g_tilt_x (initial\<lparr>g_tilt_x := 1, water_pos := 29.5, water_vel := 1\<rparr>) \<le> 1.0
   \<and> 0 \<le> water_pos (update_led_strip (\<lambda>c k. c\<lparr>b := k\<rparr>)
              (initial\<lparr>g_tilt_x := 1, water_pos := 29.5, water_vel := 1\<rparr>))
   \<and> water_pos (update_led_strip (\<lambda>c k. c\<lparr>b := k\<rparr>)
              (initial\<lparr>g_tilt_x := 1, water_pos := 29.5, water_vel := 1\<rparr>)) < real NUM_LEDS
   \<and> \<bar>water_vel (update_led_strip (\<lambda>c k. c\<lparr>b := k\<rparr>)
              (initial\<lparr>g_tilt_x := 1, water_pos := 29.5, water_vel := 1\<rparr>))\<bar> \<le> MAX_VELOCITY"
  using tick_preserves_bounds
    [of "initial\<lparr>g_tilt_x := 1, water_pos := 29.5, water_vel := 1\<rparr>" "\<lambda>c k. c\<lparr>b := k\<rparr>"]
  by simp

section \<open>Properties of the tick in single precision\<close>

subsection \<open>What the rasterizer leaves unchanged\<close>

lemma glow_loop_f32_frame:
  "g_tilt_x (glow_loop_f32 libm_sin libm_exp nscale8 i s) = g_tilt_x s \<and>
   g_sensor_connected (glow_loop_f32 libm_sin libm_exp nscale8 i s) = g_sensor_connected s \<and>
   water_pos (glow_loop_f32 libm_sin libm_exp nscale8 i s) = water_pos s \<and>
   water_vel (glow_loop_f32 libm_sin libm_exp nscale8 i s) = water_vel s \<and>
   flow_time_offset (glow_loop_f32 libm_sin libm_exp nscale8 i s) = flow_time_offset s \<and>
   length (leds (glow_loop_f32 libm_sin libm_exp nscale8 i s)) = length (leds s)"
proof (induction libm_sin libm_exp nscale8 i s rule: glow_loop_f32.induct)
  case (1 libm_sin libm_exp nscale8 i s)
  show ?case
  proof (cases "i < NUM_LEDS")
    case True
    then show ?thesis
      using "1.IH" [OF True refl refl]
      by (subst (1 2 3 4 5 6) glow_loop_f32.simps) (simp add: Let_def)
  next
    case False
    then show ?thesis by (subst (1 2 3 4 5 6) glow_loop_f32.simps) simp
  qed
qed

lemma apply_glow_f32_frame:
  "g_tilt_x (apply_glow_f32 libm_sin libm_exp nscale8 s) = g_tilt_x s \<and>
   g_sensor_connected (apply_glow_f32 libm_sin libm_exp nscale8 s) = g_sensor_connected s \<and>
   water_pos (apply_glow_f32 libm_sin libm_exp nscale8 s) = water_pos s \<and>
   water_vel (apply_glow_f32 libm_sin libm_exp nscale8 s) = water_vel s \<and>
   flow_time_offset (apply_glow_f32 libm_sin libm_exp nscale8 s) = float32 (float64 (flow_time_offset s + float64 0.05)) \<and>
   length (leds (apply_glow_f32 libm_sin libm_exp nscale8 s)) = NUM_LEDS"
  by (simp add: apply_glow_f32_def Let_def glow_loop_f32_frame)

lemma update_led_strip_f32_vel:
  "water_vel (update_led_strip_f32 libm_sin libm_exp nscale8 s) = water_vel (edge_reflection_f32 (physics_update_f32 s))"
  by (simp add: update_led_strip_f32_def apply_glow_f32_frame)

lemma update_led_strip_f32_pos:
  "water_pos (update_led_strip_f32 libm_sin libm_exp nscale8 s) = water_pos (edge_reflection_f32 (physics_update_f32 s))"
  by (simp add: update_led_strip_f32_def apply_glow_f32_frame)

lemma update_led_strip_f32_tilt [simp]:
  "g_tilt_x (update_led_strip_f32 libm_sin libm_exp nscale8 s) = g_tilt_x s"
  by (simp add: update_led_strip_f32_def apply_glow_f32_frame edge_reflection_f32_def
      physics_update_f32_def Let_def)

lemma drag_factor: "float64 0.98 = 2206763817411543 / 2 ^ 51"
  by (subst float64_in_binade [of "- 1"]) (simp_all add: round_even_def Let_def)

lemma physics_update_f32_vel:
  "water_vel (physics_update_f32 s) =
     constrain
       (float32 (float64 (float32 (water_vel s + float32 (float64 (g_tilt_x s * float64 0.2))) * float64 0.98)))
       (- MAX_VELOCITY) MAX_VELOCITY"
  by (simp add: physics_update_f32_def Let_def)

lemma physics_update_f32_pos:
  "water_pos (physics_update_f32 s) = float32 (water_pos s + water_vel (physics_update_f32 s))"
  by (simp add: physics_update_f32_def Let_def)

lemma edge_reflection_f32_in_range:
  "0 \<le> water_pos s \<Longrightarrow> water_pos s < real NUM_LEDS \<Longrightarrow> edge_reflection_f32 s = s"
  by (simp add: edge_reflection_f32_def)

subsection \<open>Reflection at the edges\<close>

lemma bounce_factor: "BOUNCE_DAMPING_f32 = 7130317 / 2 ^ 23"
proof -
  have d: "float64 0.85 = 7656119366529843 / 2 ^ 53"
    by (subst float64_in_binade [of "- 1"]) (simp_all add: round_even_def Let_def)
  have f: "float32 (7656119366529843 / 2 ^ 53) = 7130317 / 2 ^ 23"
    by (subst float32_in_binade [of "- 1"]) (simp_all add: round_even_def Let_def)
  show ?thesis
    unfolding BOUNCE_DAMPING_f32_def d f ..
qed

lemma far_edge: "float32 (float64 (real NUM_LEDS - float64 0.001)) = 3932029 / 2 ^ 17"
proof -
  have e: "float64 0.001 = 1152921504606847 / 2 ^ 60"
    by (subst float64_in_binade [of "- 10"]) (simp_all add: round_even_def Let_def)
  have d: "float64 (30 - 1152921504606847 / 2 ^ 60) = 8443967826342969 / 2 ^ 48"
    by (subst float64_in_binade [of 4]) (simp_all add: round_even_def Let_def)
  have f: "float32 (8443967826342969 / 2 ^ 48) = 3932029 / 2 ^ 17"
    by (subst float32_in_binade [of 4]) (simp_all add: round_even_def Let_def)
  have n: "real NUM_LEDS = 30"
    by (simp add: NUM_LEDS_def)
  show ?thesis
    unfolding n e d f ..
qed

lemma bounce_accuracy:
  "\<bar>float32 (- v * (7130317 / 2 ^ 23)) - (- v * 0.85)\<bar> \<le> \<bar>v\<bar> / 2 ^ 23 + 1 / 2 ^ 150"
proof -
  let ?y = "- v * (7130317 / 2 ^ 23)"
  have "\<bar>?y\<bar> = \<bar>v\<bar> * (7130317 / 2 ^ 23)"
    by (simp add: abs_mult)
  then have r: "\<bar>float32 ?y - ?y\<bar> \<le> \<bar>v\<bar> * (7130317 / 2 ^ 23) / 2 ^ 24 + 1 / 2 ^ 150"
    using float32_error [of ?y] by simp
  have "?y - (- v * 0.85) = - v * (7130317 / 2 ^ 23 - 0.85)"
    by (simp add: algebra_simps)
  then have "\<bar>?y - (- v * 0.85)\<bar> = \<bar>v\<bar> * \<bar>7130317 / 2 ^ 23 - 0.85 :: real\<bar>"
    by (simp only: abs_mult abs_minus_cancel)
  also have "\<bar>7130317 / 2 ^ 23 - 0.85 :: real\<bar> = 7130317 / 2 ^ 23 - 0.85"
    by simp
  finally have c: "\<bar>?y - (- v * 0.85)\<bar> = \<bar>v\<bar> * (7130317 / 2 ^ 23 - 0.85)" .
  have tri: "\<bar>x - z\<bar> \<le> \<bar>x - y\<bar> + \<bar>y - z\<bar>" for x y z :: real
    by linarith
  have "\<bar>float32 ?y - (- v * 0.85)\<bar> \<le> \<bar>float32 ?y - ?y\<bar> + \<bar>?y - (- v * 0.85)\<bar>"
    by (rule tri)
  also have "\<dots> \<le> \<bar>v\<bar> * (7130317 / 2 ^ 23) / 2 ^ 24 + 1 / 2 ^ 150 + \<bar>v\<bar> * (7130317 / 2 ^ 23 - 0.85)"
    by (rule add_mono [OF r eq_refl [OF c]])
  also have "\<dots> = \<bar>v\<bar> * ((7130317 / 2 ^ 23) / 2 ^ 24 + (7130317 / 2 ^ 23 - 0.85)) + 1 / 2 ^ 150"
    by (simp add: algebra_simps)
  also have "\<dots> \<le> \<bar>v\<bar> * (1 / 2 ^ 23) + 1 / 2 ^ 150"
    by (intro add_right_mono mult_left_mono) simp_all
  finally show ?thesis by simp
qed

text \<open>
  C3. Reflection at the edges, in the arithmetic of the code. Let \<open>v\<close> be the velocity
  the integration step stores (lines 133 to 140: the tilt scaled by 0.2 added, the drag
  0.98 applied, each store rounded to single precision, then clamped to \<open>[-1, 1]\<close>) and
  \<open>x\<close> the position it stores (line 143, the sum rounded to single precision). When
  \<open>x\<close> is \<open>NUM_LEDS\<close> or beyond (exactly \<open>NUM_LEDS\<close> included), the tick ends with the
  position at \<open>3932029 / 2 ^ 17\<close>, which is \<open>NUM_LEDS - 0.001\<close> as a \<open>float\<close> and within
  \<open>1 / 2 ^ 20\<close> of it, and with the velocity at \<open>- v\<close> times \<open>7130317 / 2 ^ 23\<close> (0.85 as
  a \<open>float\<close>), rounded, which is within \<open>\<bar>v\<bar> / 2 ^ 23 + 1 / 2 ^ 150\<close> of \<open>- v * 0.85\<close>. When
  \<open>x\<close> is below 0 the tick ends with the position at exactly 0 and the same velocity.
  Otherwise the tick ends with position \<open>x\<close> and velocity \<open>v\<close>.
\<close>
theorem boundary_reflection:
  "(let v = max (- 1) (min 1 (float32 (float64 (float32 (water_vel s
              + float32 (float64 (g_tilt_x s * float64 0.2))) * float64 0.98))));
        x = float32 (water_pos s + v);
        s' = update_led_strip_f32 libm_sin libm_exp nscale8 s
    in (x \<ge> real NUM_LEDS \<longrightarrow>
          water_pos s' = 3932029 / 2 ^ 17 \<and> water_vel s' = float32 (- v * (7130317 / 2 ^ 23)))
     \<and> (x < 0 \<longrightarrow> water_pos s' = 0 \<and> water_vel s' = float32 (- v * (7130317 / 2 ^ 23)))
     \<and> (0 \<le> x \<and> x < real NUM_LEDS \<longrightarrow> water_pos s' = x \<and> water_vel s' = v)
     \<and> \<bar>3932029 / 2 ^ 17 - (real NUM_LEDS - 0.001)\<bar> \<le> 1 / 2 ^ 20
     \<and> \<bar>float32 (- v * (7130317 / 2 ^ 23)) - (- v * 0.85)\<bar> \<le> \<bar>v\<bar> / 2 ^ 23 + 1 / 2 ^ 150)"
proof -
  let ?p = "physics_update_f32 s"
  let ?v = "max (- 1) (min 1 (float32 (float64 (float32 (water_vel s
              + float32 (float64 (g_tilt_x s * float64 0.2))) * float64 0.98))))"
  have v: "water_vel ?p = ?v"
    unfolding physics_update_f32_vel by (simp add: constrain_max_min MAX_VELOCITY_def)
  have x: "water_pos ?p = float32 (water_pos s + ?v)"
    unfolding physics_update_f32_pos v ..
  have far: "water_pos (edge_reflection_f32 ?p) = 3932029 / 2 ^ 17
      \<and> water_vel (edge_reflection_f32 ?p) = float32 (- ?v * (7130317 / 2 ^ 23))"
    if "float32 (water_pos s + ?v) \<ge> real NUM_LEDS"
    using that x v far_edge by (simp add: edge_reflection_f32_def bounce_factor)
  have near: "water_pos (edge_reflection_f32 ?p) = 0
      \<and> water_vel (edge_reflection_f32 ?p) = float32 (- ?v * (7130317 / 2 ^ 23))"
    if "float32 (water_pos s + ?v) < 0"
    using that x v by (simp add: edge_reflection_f32_def bounce_factor)
  have inside: "water_pos (edge_reflection_f32 ?p) = float32 (water_pos s + ?v)
      \<and> water_vel (edge_reflection_f32 ?p) = ?v"
    if "0 \<le> float32 (water_pos s + ?v) \<and> float32 (water_pos s + ?v) < real NUM_LEDS"
    using that x v edge_reflection_f32_in_range [of ?p] by simp
  have c: "\<bar>3932029 / 2 ^ 17 - (real NUM_LEDS - 0.001)\<bar> \<le> 1 / 2 ^ 20"
    by (simp add: NUM_LEDS_def)
  show ?thesis
    unfolding Let_def update_led_strip_f32_pos update_led_strip_f32_vel
    using far near inside c bounce_accuracy [of ?v] by blast
qed

text \<open>
  The three branches at work. From position 29.5 with velocity \<open>2139951 / 2 ^ 22\<close> the
  drag leaves exactly \<open>1 / 2\<close>, the position stored is exactly 30 and the particle is
  reflected. From position \<open>1 / 4\<close> with velocity \<open>- 1\<close> the particle is reflected at
  the near edge. From position \<open>9865003 / 2 ^ 25\<close> with velocity \<open>- 5033165 / 2 ^ 24\<close> the
  position stored is exactly 0, which is inside the strip: no reflection.
\<close>
theorem boundary_reflection_witness:
  "float32 (29.5 + 1 / 2) \<ge> real NUM_LEDS
   \<and> water_pos (update_led_strip_f32 sin exp (\<lambda>c k. c\<lparr>b := k\<rparr>)
        (initial\<lparr>water_pos := 29.5, water_vel := 2139951 / 2 ^ 22\<rparr>)) = 3932029 / 2 ^ 17
   \<and> water_vel (update_led_strip_f32 sin exp (\<lambda>c k. c\<lparr>b := k\<rparr>)
        (initial\<lparr>water_pos := 29.5, water_vel := 2139951 / 2 ^ 22\<rparr>)) = - 7130317 / 2 ^ 24
   \<and> float32 (1 / 4 + - 2055209 / 2 ^ 21) < 0
   \<and> water_pos (update_led_strip_f32 sin exp (\<lambda>c k. c\<lparr>b := k\<rparr>)
        (initial\<lparr>water_pos := 1 / 4, water_vel := - 1\<rparr>)) = 0
   \<and> water_vel (update_led_strip_f32 sin exp (\<lambda>c k. c\<lparr>b := k\<rparr>)
        (initial\<lparr>water_pos := 1 / 4, water_vel := - 1\<rparr>)) = 6987711 / 2 ^ 23
   \<and> 0 \<le> float32 (9865003 / 2 ^ 25 + - 9865003 / 2 ^ 25)
   \<and> float32 (9865003 / 2 ^ 25 + - 9865003 / 2 ^ 25) < real NUM_LEDS
   \<and> water_pos (update_led_strip_f32 sin exp (\<lambda>c k. c\<lparr>b := k\<rparr>)
        (initial\<lparr>water_pos := 9865003 / 2 ^ 25, water_vel := - 5033165 / 2 ^ 24\<rparr>)) = 0
   \<and> water_vel (update_led_strip_f32 sin exp (\<lambda>c k. c\<lparr>b := k\<rparr>)
        (initial\<lparr>water_pos := 9865003 / 2 ^ 25, water_vel := - 5033165 / 2 ^ 24\<rparr>)) = - 9865003 / 2 ^ 25"
proof -
  let ?f = "\<lambda>c k. c\<lparr>b := k\<rparr>"
  let ?a = "initial\<lparr>water_pos := 29.5, water_vel := 2139951 / 2 ^ 22\<rparr>"
  let ?b = "initial\<lparr>water_pos := 1 / 4, water_vel := - 1\<rparr>"
  let ?c = "initial\<lparr>water_pos := 9865003 / 2 ^ 25, water_vel := - 5033165 / 2 ^ 24\<rparr>"
  have n: "real NUM_LEDS = 30"
    by (simp add: NUM_LEDS_def)
  have a: "g_tilt_x ?a = 0" "water_vel ?a = 2139951 / 2 ^ 22" "water_pos ?a = 29.5"
    by (simp_all add: initial_def)
  have a1: "float32 (2139951 / 2 ^ 22 + 0) = 2139951 / 2 ^ 22"
    by (subst float32_in_binade [of "- 1"]) (simp_all add: round_even_def Let_def)
  have a2: "float64 (2139951 / 2 ^ 22 * (2206763817411543 / 2 ^ 51)) = 4503599584420823 / 2 ^ 53"
    by (subst float64_in_binade [of "- 2"]) (simp_all add: round_even_def Let_def)
  have a3: "float32 (4503599584420823 / 2 ^ 53) = 1 / 2"
    by (subst float32_in_binade [of "- 2"]) (simp_all add: round_even_def Let_def)
  have a4: "max (- 1) (min 1 (1 / 2 :: real)) = 1 / 2"
    by simp
  have a5: "float32 (29.5 + 1 / 2) = 30"
    by (subst float32_in_binade [of 4]) (simp_all add: round_even_def Let_def)
  have a6: "float32 (- (1 / 2) * (7130317 / 2 ^ 23)) = - 7130317 / 2 ^ 24"
    by (subst float32_in_binade [of "- 2"]) (simp_all add: round_even_def Let_def)
  note A = boundary_reflection [of ?a sin exp ?f, unfolded Let_def a mult_zero_left
      float64_zero float32_zero a1 drag_factor a2 a3 a4 a5 a6]
  have b: "g_tilt_x ?b = 0" "water_vel ?b = - 1" "water_pos ?b = 1 / 4"
    by (simp_all add: initial_def)
  have b1: "float32 (- 1 + 0) = - 1"
    by (subst float32_in_binade [of 0]) (simp_all add: round_even_def Let_def)
  have b2: "float64 (- 1 * (2206763817411543 / 2 ^ 51)) = - 2206763817411543 / 2 ^ 51"
    by (subst float64_in_binade [of "- 1"]) (simp_all add: round_even_def Let_def)
  have b3: "float32 (- 2206763817411543 / 2 ^ 51) = - 2055209 / 2 ^ 21"
    by (subst float32_in_binade [of "- 1"]) (simp_all add: round_even_def Let_def)
  have b4: "max (- 1) (min 1 (- 2055209 / 2 ^ 21 :: real)) = - 2055209 / 2 ^ 21"
    by simp
  have b5: "float32 (1 / 4 + - 2055209 / 2 ^ 21) = - 1530921 / 2 ^ 21"
    by (subst float32_in_binade [of "- 1"]) (simp_all add: round_even_def Let_def)
  have b6: "float32 (- (- 2055209 / 2 ^ 21) * (7130317 / 2 ^ 23)) = 6987711 / 2 ^ 23"
    by (subst float32_in_binade [of "- 1"]) (simp_all add: round_even_def Let_def)
  note B = boundary_reflection [of ?b sin exp ?f, unfolded Let_def b mult_zero_left
      float64_zero float32_zero b1 drag_factor b2 b3 b4 b6]
  have c: "g_tilt_x ?c = 0" "water_vel ?c = - 5033165 / 2 ^ 24" "water_pos ?c = 9865003 / 2 ^ 25"
    by (simp_all add: initial_def)
  have c1: "float32 (- 5033165 / 2 ^ 24 + 0) = - 5033165 / 2 ^ 24"
    by (subst float32_in_binade [of "- 2"]) (simp_all add: round_even_def Let_def)
  have c2: "float64 (- 5033165 / 2 ^ 24 * (2206763817411543 / 2 ^ 51)) = - 5296233372241101 / 2 ^ 54"
    by (subst float64_in_binade [of "- 2"]) (simp_all add: round_even_def Let_def)
  have c3: "float32 (- 5296233372241101 / 2 ^ 54) = - 9865003 / 2 ^ 25"
    by (subst float32_in_binade [of "- 2"]) (simp_all add: round_even_def Let_def)
  have c4: "max (- 1) (min 1 (- 9865003 / 2 ^ 25 :: real)) = - 9865003 / 2 ^ 25"
    by simp
  have c5: "float32 (9865003 / 2 ^ 25 + - 9865003 / 2 ^ 25) = 0"
    by simp
  note C = boundary_reflection [of ?c sin exp ?f, unfolded Let_def c mult_zero_left
      float64_zero float32_zero c1 drag_factor c2 c3 c4]
  have a7: "float32 (29.5 + 1 / 2) \<ge> real NUM_LEDS"
    unfolding a5 n by simp
  have b7: "float32 (1 / 4 + - 2055209 / 2 ^ 21) < 0"
    unfolding b5 by simp
  have c7: "0 \<le> float32 (9865003 / 2 ^ 25 + - 9865003 / 2 ^ 25)"
    "float32 (9865003 / 2 ^ 25 + - 9865003 / 2 ^ 25) < real NUM_LEDS"
    unfolding c5 n by simp_all
  from A a7 [unfolded a5] have ra: "water_pos (update_led_strip_f32 sin exp ?f ?a) = 3932029 / 2 ^ 17"
    "water_vel (update_led_strip_f32 sin exp ?f ?a) = - 7130317 / 2 ^ 24"
    by blast+
  from B b7 have rb: "water_pos (update_led_strip_f32 sin exp ?f ?b) = 0"
    "water_vel (update_led_strip_f32 sin exp ?f ?b) = 6987711 / 2 ^ 23"
    by blast+
  from C c7 have rc: "water_pos (update_led_strip_f32 sin exp ?f ?c) = float32 (9865003 / 2 ^ 25 + - 9865003 / 2 ^ 25)"
    "water_vel (update_led_strip_f32 sin exp ?f ?c) = - 9865003 / 2 ^ 25"
    by blast+
  show ?thesis
    by (intro conjI) (fact a7 ra rb b7 c7 rc [unfolded c5])+
qed

subsection \<open>Decay under drag\<close>

text \<open>
  With no tilt a tick multiplies the velocity by 0.98 and, at an edge, by 0.85. Each
  rounding adds at most half a unit in the last place, or \<open>1 / 2 ^ 150\<close> among the
  subnormal numbers, whence the bound of \<open>drag_only_tick_f32\<close>.
\<close>

lemma drag_factor_bound: "\<bar>float64 0.98\<bar> \<le> 0.9800001"
  using float64_abs_le [of "0.98"] by simp

lemma bounce_factor_bound: "\<bar>BOUNCE_DAMPING_f32\<bar> \<le> 0.8500002"
proof -
  have "\<bar>float64 0.85\<bar> \<le> 0.8500001"
    using float64_abs_le [of "0.85"] by simp
  then show ?thesis
    unfolding BOUNCE_DAMPING_f32_def using float32_abs_le [of "float64 0.85"] by simp
qed

lemma constrain_abs_le: "\<bar>constrain v (- MAX_VELOCITY) MAX_VELOCITY\<bar> \<le> \<bar>v\<bar>"
  by (simp add: constrain_def MAX_VELOCITY_def)

lemma drag_step_bound:
  "\<bar>float32 (float64 (float32 v * float64 0.98))\<bar> \<le> 0.9800004 * \<bar>v\<bar> + 5 / 2 ^ 150"
proof -
  define e :: real where "e = 1 / 2 ^ 150"
  have e: "0 < e" "e < 1 / 10 ^ 40" by (simp_all add: e_def)
  have v1: "\<bar>float32 v\<bar> \<le> 1.0000001 * \<bar>v\<bar> + e"
    using float32_abs_le [of v] by (simp add: e_def)
  have "\<bar>float32 v * float64 0.98\<bar> = \<bar>float32 v\<bar> * \<bar>float64 0.98\<bar>"
    by (simp add: abs_mult)
  also have "\<dots> \<le> \<bar>float32 v\<bar> * 0.9800001"
    using drag_factor_bound by (intro mult_left_mono) simp_all
  finally have y: "\<bar>float32 v * float64 0.98\<bar> \<le> 0.9800002 * \<bar>v\<bar> + e"
    using v1 e by simp
  have y2: "\<bar>float64 (float32 v * float64 0.98)\<bar> \<le> 0.9800003 * \<bar>v\<bar> + 3 * e"
    using float64_abs_le [of "float32 v * float64 0.98"] y e by (simp add: e_def)
  have "\<bar>float32 (float64 (float32 v * float64 0.98))\<bar> \<le> 0.9800004 * \<bar>v\<bar> + 5 * e"
    using float32_abs_le [of "float64 (float32 v * float64 0.98)"] y2 e by (simp add: e_def)
  then show ?thesis by (simp add: e_def)
qed

lemma physics_update_f32_vel_bound:
  assumes "g_tilt_x s = 0"
  shows "\<bar>water_vel (physics_update_f32 s)\<bar> \<le> 0.9800004 * \<bar>water_vel s\<bar> + 5 / 2 ^ 150"
proof -
  have "water_vel (physics_update_f32 s) =
      constrain (float32 (float64 (float32 (water_vel s) * float64 0.98))) (- MAX_VELOCITY) MAX_VELOCITY"
    using assms by (simp add: physics_update_f32_def Let_def)
  then have "\<bar>water_vel (physics_update_f32 s)\<bar> \<le> \<bar>float32 (float64 (float32 (water_vel s) * float64 0.98))\<bar>"
    using constrain_abs_le by simp
  also have "\<dots> \<le> 0.9800004 * \<bar>water_vel s\<bar> + 5 / 2 ^ 150"
    by (rule drag_step_bound)
  finally show ?thesis .
qed

lemma edge_reflection_f32_vel_bound:
  "\<bar>water_vel (edge_reflection_f32 s)\<bar> \<le> \<bar>water_vel s\<bar> + 1 / 2 ^ 150"
proof -
  have "\<bar>- water_vel s * BOUNCE_DAMPING_f32\<bar> = \<bar>water_vel s\<bar> * \<bar>BOUNCE_DAMPING_f32\<bar>"
    by (simp add: abs_mult)
  also have "\<dots> \<le> \<bar>water_vel s\<bar> * 0.8500002"
    using bounce_factor_bound by (intro mult_left_mono) simp_all
  finally have "\<bar>float32 (- water_vel s * BOUNCE_DAMPING_f32)\<bar> \<le> \<bar>water_vel s\<bar> + 1 / 2 ^ 150"
    using float32_abs_le [of "- water_vel s * BOUNCE_DAMPING_f32"] by simp
  then show ?thesis
    by (simp add: edge_reflection_f32_def)
qed

lemma ticks_f32_tilt [simp]: "g_tilt_x (ticks_f32 libm_sin libm_exp nscale8 n s) = g_tilt_x s"
  by (induction n) simp_all

lemma drag_only_tick_f32:
  assumes "g_tilt_x s = 0"
  shows "\<bar>water_vel (ticks_f32 libm_sin libm_exp nscale8 (Suc n) s)\<bar>
           \<le> 0.981 * \<bar>water_vel (ticks_f32 libm_sin libm_exp nscale8 n s)\<bar> + 1 / 2 ^ 147"
proof -
  let ?s = "ticks_f32 libm_sin libm_exp nscale8 n s"
  have "\<bar>water_vel (ticks_f32 libm_sin libm_exp nscale8 (Suc n) s)\<bar> \<le> \<bar>water_vel (physics_update_f32 ?s)\<bar> + 1 / 2 ^ 150"
    using edge_reflection_f32_vel_bound [of "physics_update_f32 ?s"]
    by (simp add: update_led_strip_f32_vel)
  also have "\<dots> \<le> (0.9800004 * \<bar>water_vel ?s\<bar> + 5 / 2 ^ 150) + 1 / 2 ^ 150"
    using physics_update_f32_vel_bound [of ?s] assms by simp
  also have "\<dots> \<le> 0.981 * \<bar>water_vel ?s\<bar> + 1 / 2 ^ 147"
    by simp
  finally show ?thesis .
qed

lemma drag_geometric_bound:
  assumes "g_tilt_x s = 0"
  shows "\<bar>water_vel (ticks_f32 libm_sin libm_exp nscale8 n s)\<bar> \<le> 0.981 ^ n * \<bar>water_vel s\<bar> + (1000 / 19) / 2 ^ 147"
proof (induction n)
  case 0
  then show ?case by simp
next
  case (Suc n)
  have "\<bar>water_vel (ticks_f32 libm_sin libm_exp nscale8 (Suc n) s)\<bar>
      \<le> 0.981 * \<bar>water_vel (ticks_f32 libm_sin libm_exp nscale8 n s)\<bar> + 1 / 2 ^ 147"
    by (rule drag_only_tick_f32 [OF assms])
  also have "\<dots> \<le> 0.981 * (0.981 ^ n * \<bar>water_vel s\<bar> + (1000 / 19) / 2 ^ 147) + 1 / 2 ^ 147"
    using Suc.IH by simp
  also have "\<dots> = 0.981 ^ Suc n * \<bar>water_vel s\<bar> + (1000 / 19) / 2 ^ 147"
    by (simp add: algebra_simps)
  finally show ?case .
qed

text \<open>
  C4. Decay under drag alone. If the tilt is 0 and the velocity is not, then on every
  tick on which the magnitude of the velocity is at least \<open>2 powi (- 126)\<close>, the
  smallest normal number of single precision, the next tick leaves it strictly smaller;
  and from some tick on the magnitude stays below \<open>2 powi (- 126)\<close>, about \<open>1.2e-38\<close>.
  The tilt is left as it is by \<open>ticks_f32\<close>, so it is 0 on every tick.
\<close>
theorem drag_only_decay:
  "g_tilt_x s = 0 \<Longrightarrow> water_vel s \<noteq> 0 \<Longrightarrow>
     (\<forall>n. 2 powi (- 126) \<le> \<bar>water_vel (ticks_f32 libm_sin libm_exp nscale8 n s)\<bar> \<longrightarrow>
            \<bar>water_vel (ticks_f32 libm_sin libm_exp nscale8 (Suc n) s)\<bar> < \<bar>water_vel (ticks_f32 libm_sin libm_exp nscale8 n s)\<bar>)
     \<and> (\<exists>N. \<forall>n\<ge>N. \<bar>water_vel (ticks_f32 libm_sin libm_exp nscale8 n s)\<bar> < 2 powi (- 126))"
proof -
  assume tilt: "g_tilt_x s = 0" and vel: "water_vel s \<noteq> 0"
  have min: "(2::real) powi (- 126) = 1 / 2 ^ 126"
    by simp
  have strict: "\<bar>water_vel (ticks_f32 libm_sin libm_exp nscale8 (Suc n) s)\<bar> < \<bar>water_vel (ticks_f32 libm_sin libm_exp nscale8 n s)\<bar>"
    if "2 powi (- 126) \<le> \<bar>water_vel (ticks_f32 libm_sin libm_exp nscale8 n s)\<bar>" for n
  proof -
    have "\<bar>water_vel (ticks_f32 libm_sin libm_exp nscale8 (Suc n) s)\<bar>
        \<le> 0.981 * \<bar>water_vel (ticks_f32 libm_sin libm_exp nscale8 n s)\<bar> + 1 / 2 ^ 147"
      by (rule drag_only_tick_f32 [OF tilt])
    also have "\<dots> < \<bar>water_vel (ticks_f32 libm_sin libm_exp nscale8 n s)\<bar>"
      using that unfolding min by simp
    finally show ?thesis .
  qed
  have small: "\<exists>N. \<forall>n\<ge>N. \<bar>water_vel (ticks_f32 libm_sin libm_exp nscale8 n s)\<bar> < 2 powi (- 126)"
  proof -
    from vel have "0 < (1 / 2 ^ 127) / \<bar>water_vel s\<bar>"
      by simp
    then obtain N where N: "(0.981::real) ^ N < (1 / 2 ^ 127) / \<bar>water_vel s\<bar>"
      using real_arch_pow_inv [of "(1 / 2 ^ 127) / \<bar>water_vel s\<bar>" "0.981"] by auto
    have "\<bar>water_vel (ticks_f32 libm_sin libm_exp nscale8 n s)\<bar> < 2 powi (- 126)" if "N \<le> n" for n
    proof -
      have "\<bar>water_vel (ticks_f32 libm_sin libm_exp nscale8 n s)\<bar> \<le> 0.981 ^ n * \<bar>water_vel s\<bar> + (1000 / 19) / 2 ^ 147"
        by (rule drag_geometric_bound [OF tilt])
      also have "0.981 ^ n * \<bar>water_vel s\<bar> \<le> 0.981 ^ N * \<bar>water_vel s\<bar>"
        using \<open>N \<le> n\<close> by (intro mult_right_mono power_decreasing) simp_all
      also have "0.981 ^ N * \<bar>water_vel s\<bar> < 1 / 2 ^ 127"
        using N vel by (simp add: pos_less_divide_eq)
      also have "(1::real) / 2 ^ 127 + (1000 / 19) / 2 ^ 147 < 2 powi (- 126)"
        unfolding min by simp
      finally show ?thesis by simp
    qed
    then show ?thesis by blast
  qed
  from strict small show ?thesis by blast
qed

text \<open>
  Two ticks evaluated. From velocity \<open>1 / 2\<close> the first tick stores \<open>2055209 / 2 ^ 22\<close>.
  Among the subnormal numbers the decrease ends: the velocity \<open>3 / 2 ^ 146\<close>, which is 24
  units of \<open>2 powi (- 149)\<close>, is stored again unchanged, since 23.52 units round to 24.
\<close>

lemma first_tick_from_half:
  "water_vel (ticks_f32 libm_sin libm_exp nscale8 (Suc 0) (initial\<lparr>water_vel := 1 / 2\<rparr>)) = 2055209 / 2 ^ 22"
proof -
  let ?s = "initial\<lparr>water_vel := 1 / 2\<rparr>"
  have s: "g_tilt_x ?s = 0" "water_vel ?s = 1 / 2" "water_pos ?s = 15"
    by (simp_all add: initial_def NUM_LEDS_def)
  have v1: "float32 (1 / 2) = 1 / 2"
    by (subst float32_in_binade [of "- 1"]) (simp_all add: round_even_def Let_def)
  have y: "float64 (1 / 2 * (2206763817411543 / 2 ^ 51)) = 2206763817411543 / 2 ^ 52"
    by (subst float64_in_binade [of "- 2"]) (simp_all add: round_even_def Let_def)
  have v2: "float32 (2206763817411543 / 2 ^ 52) = 2055209 / 2 ^ 22"
    by (subst float32_in_binade [of "- 2"]) (simp_all add: round_even_def Let_def)
  have c: "constrain (2055209 / 2 ^ 22) (- MAX_VELOCITY) MAX_VELOCITY = 2055209 / 2 ^ 22"
    by (simp add: constrain_def MAX_VELOCITY_def)
  have pos: "float32 (15 + 2055209 / 2 ^ 22) = 8121221 / 2 ^ 19"
    by (subst float32_in_binade [of 3]) (simp_all add: round_even_def Let_def)
  have vel: "water_vel (physics_update_f32 ?s) = 2055209 / 2 ^ 22"
    unfolding physics_update_f32_vel s mult_zero_left float64_zero float32_zero add_0_right
      v1 drag_factor y v2 c ..
  have "water_pos (physics_update_f32 ?s) = 8121221 / 2 ^ 19"
    unfolding physics_update_f32_pos vel s pos ..
  then have "edge_reflection_f32 (physics_update_f32 ?s) = physics_update_f32 ?s"
    by (intro edge_reflection_f32_in_range) (simp_all add: NUM_LEDS_def)
  with vel show ?thesis
    by (simp add: update_led_strip_f32_vel)
qed

lemma drag_stalls_below_smallest_normal:
  "water_vel (ticks_f32 libm_sin libm_exp nscale8 (Suc 0) (initial\<lparr>water_vel := 3 / 2 ^ 146\<rparr>)) = 3 / 2 ^ 146"
proof -
  let ?s = "initial\<lparr>water_vel := 3 / 2 ^ 146\<rparr>"
  have s: "g_tilt_x ?s = 0" "water_vel ?s = 3 / 2 ^ 146" "water_pos ?s = 15"
    by (simp_all add: initial_def NUM_LEDS_def)
  have v1: "float32 (3 / 2 ^ 146) = 3 / 2 ^ 146"
    by (subst float32_subnormal) (simp_all add: round_even_def Let_def)
  have y: "float64 (3 / 2 ^ 146 * (2206763817411543 / 2 ^ 51)) = 6620291452234629 / 2 ^ 197"
    by (subst float64_in_binade [of "- 145"]) (simp_all add: round_even_def Let_def)
  have v2: "float32 (6620291452234629 / 2 ^ 197) = 3 / 2 ^ 146"
    by (subst float32_subnormal) (simp_all add: round_even_def Let_def)
  have c: "constrain (3 / 2 ^ 146) (- MAX_VELOCITY) MAX_VELOCITY = 3 / 2 ^ 146"
    by (simp add: constrain_def MAX_VELOCITY_def)
  have pos: "float32 (15 + 3 / 2 ^ 146) = 15"
    by (subst float32_in_binade [of 3]) (simp_all add: round_even_def Let_def)
  have vel: "water_vel (physics_update_f32 ?s) = 3 / 2 ^ 146"
    unfolding physics_update_f32_vel s mult_zero_left float64_zero float32_zero add_0_right
      v1 drag_factor y v2 c ..
  have "water_pos (physics_update_f32 ?s) = 15"
    unfolding physics_update_f32_pos vel s pos ..
  then have "edge_reflection_f32 (physics_update_f32 ?s) = physics_update_f32 ?s"
    by (intro edge_reflection_f32_in_range) (simp_all add: NUM_LEDS_def)
  with vel show ?thesis
    by (simp add: update_led_strip_f32_vel)
qed

theorem drag_only_decay_witness:
  "g_tilt_x (initial\<lparr>water_vel := 1 / 2\<rparr>) = 0
   \<and> water_vel (initial\<lparr>water_vel := 1 / 2\<rparr>) \<noteq> 0
   \<and> 2 powi (- 126) \<le> \<bar>water_vel (ticks_f32 sin exp (\<lambda>c k. c\<lparr>b := k\<rparr>) 0 (initial\<lparr>water_vel := 1 / 2\<rparr>))\<bar>
   \<and> water_vel (ticks_f32 sin exp (\<lambda>c k. c\<lparr>b := k\<rparr>) (Suc 0) (initial\<lparr>water_vel := 1 / 2\<rparr>)) = 2055209 / 2 ^ 22
   \<and> \<bar>water_vel (ticks_f32 sin exp (\<lambda>c k. c\<lparr>b := k\<rparr>) (Suc 0) (initial\<lparr>water_vel := 1 / 2\<rparr>))\<bar>
       < \<bar>water_vel (ticks_f32 sin exp (\<lambda>c k. c\<lparr>b := k\<rparr>) 0 (initial\<lparr>water_vel := 1 / 2\<rparr>))\<bar>
   \<and> (\<exists>N. \<forall>n\<ge>N. \<bar>water_vel (ticks_f32 sin exp (\<lambda>c k. c\<lparr>b := k\<rparr>) n (initial\<lparr>water_vel := 1 / 2\<rparr>))\<bar> < 2 powi (- 126))"
proof -
  have tilt: "g_tilt_x (initial\<lparr>water_vel := 1 / 2\<rparr>) = 0"
    by (simp add: initial_def)
  have vel: "water_vel (initial\<lparr>water_vel := 1 / 2\<rparr>) \<noteq> 0"
    by simp
  have big: "2 powi (- 126) \<le> \<bar>water_vel (ticks_f32 sin exp (\<lambda>c k. c\<lparr>b := k\<rparr>) 0 (initial\<lparr>water_vel := 1 / 2\<rparr>))\<bar>"
    by simp
  from drag_only_decay [OF tilt vel, of sin exp "\<lambda>c k. c\<lparr>b := k\<rparr>"] tilt vel big
    first_tick_from_half [of sin exp "\<lambda>c k. c\<lparr>b := k\<rparr>"] show ?thesis
    by blast
qed

subsection \<open>The glow rasterizer\<close>

lemma float_to_uint8_integer_part:
  assumes "0 \<le> x" "x \<le> 255"
  shows "unat (float_to_uint8 x) = nat \<lfloor>x\<rfloor>"
proof -
  have lo: "0 \<le> \<lfloor>x\<rfloor>" using assms(1) by simp
  have hi: "\<lfloor>x\<rfloor> \<le> 255" using assms(2) by (simp add: floor_le_iff)
  have "uint (word_of_int \<lfloor>x\<rfloor> :: 8 word) = \<lfloor>x\<rfloor> mod 2 ^ 8"
    by (simp add: uint_word_of_int)
  also have "\<dots> = \<lfloor>x\<rfloor>"
    using lo hi by simp
  finally have "unat (word_of_int \<lfloor>x\<rfloor> :: 8 word) = nat \<lfloor>x\<rfloor>"
    by (simp add: unat_eq_nat_uint)
  then show ?thesis
    using assms(1) by (simp add: float_to_uint8_def)
qed

lemma float32_one [simp]: "float32 1 = 1"
  by (subst float32_in_binade [of 0]) (simp_all add: round_even_def Let_def)

lemma float32_255: "float32 255 = 255"
  by (subst float32_in_binade [of 7]) (simp_all add: round_even_def Let_def)

lemma float64_lit_0_2: "float64 0.2 = 3602879701896397 / 2 ^ 54"
  by (subst float64_in_binade [of "- 3"]) (simp_all add: round_even_def Let_def)

lemma float64_lit_0_8: "float64 0.8 = 3602879701896397 / 2 ^ 52"
  by (subst float64_in_binade [of "- 1"]) (simp_all add: round_even_def Let_def)

lemma float64_lit_0_05: "float64 0.05 = 3602879701896397 / 2 ^ 56"
  by (subst float64_in_binade [of "- 5"]) (simp_all add: round_even_def Let_def)

lemma shimmer_sum_low:
  "float32 (float64 (3602879701896397 / 2 ^ 52 - 3602879701896397 / 2 ^ 54)) = 5033165 / 2 ^ 23"
proof -
  have d: "float64 (3602879701896397 / 2 ^ 52 - 3602879701896397 / 2 ^ 54) = 1351079888211149 / 2 ^ 51"
    by (subst float64_in_binade [of "- 1"]) (simp_all add: round_even_def Let_def)
  have f: "float32 (1351079888211149 / 2 ^ 51) = 5033165 / 2 ^ 23"
    by (subst float32_in_binade [of "- 1"]) (simp_all add: round_even_def Let_def)
  show ?thesis unfolding d f ..
qed

lemma shimmer_sum_high:
  "float32 (float64 (3602879701896397 / 2 ^ 54 + 3602879701896397 / 2 ^ 52)) = 1"
proof -
  have d: "float64 (3602879701896397 / 2 ^ 54 + 3602879701896397 / 2 ^ 52) = 1"
    by (subst float64_in_binade [of 0]) (simp_all add: round_even_def Let_def)
  show ?thesis unfolding d by (rule float32_one)
qed

lemma float64_amplitude: "float64 (3602879701896397 / 2 ^ 54) = 3602879701896397 / 2 ^ 54"
  by (subst float64_in_binade [of "- 3"]) (simp_all add: round_even_def Let_def)

lemma shimmer_f32_range:
  assumes "- 1 \<le> libm_sin (float64 (float64 (real i * float64 0.3) + offset))"
    and "libm_sin (float64 (float64 (real i * float64 0.3) + offset)) \<le> 1"
  shows "0.6 \<le> shimmer_f32 libm_sin i offset" and "shimmer_f32 libm_sin i offset \<le> 1"
proof -
  define t where "t = libm_sin (float64 (float64 (real i * float64 0.3) + offset))"
  define c :: real where "c = 3602879701896397 / 2 ^ 54"
  define d :: real where "d = 3602879701896397 / 2 ^ 52"
  have t: "- 1 \<le> t" "t \<le> 1" using assms by (simp_all add: t_def)
  have c: "0 \<le> c" by (simp add: c_def)
  have fc: "float64 c = c" unfolding c_def by (rule float64_amplitude)
  have fmc: "float64 (- c) = - c"
    using fc by (simp add: float64_def round_to_minus)
  have "- c \<le> t * c" "t * c \<le> c"
    using t c mult_right_mono [of "- 1" t c] mult_right_mono [of t 1 c] by simp_all
  then have "float64 (- c) \<le> float64 (t * c)" "float64 (t * c) \<le> float64 c"
    by (simp_all add: float64_mono)
  then have "d - c \<le> float64 (t * c) + d" "float64 (t * c) + d \<le> c + d"
    unfolding fc fmc by simp_all
  then have "float32 (float64 (d - c)) \<le> float32 (float64 (float64 (t * c) + d))"
    "float32 (float64 (float64 (t * c) + d)) \<le> float32 (float64 (c + d))"
    by (simp_all add: float64_mono float32_mono)
  then have r: "5033165 / 2 ^ 23 \<le> float32 (float64 (float64 (t * c) + d))"
    "float32 (float64 (float64 (t * c) + d)) \<le> 1"
    unfolding c_def d_def shimmer_sum_low shimmer_sum_high by simp_all
  have sh: "shimmer_f32 libm_sin i offset = float32 (float64 (float64 (t * c) + d))"
    unfolding shimmer_f32_def t_def c_def d_def float64_lit_0_2 float64_lit_0_8 ..
  show "0.6 \<le> shimmer_f32 libm_sin i offset"
    using r(1) unfolding sh by simp
  show "shimmer_f32 libm_sin i offset \<le> 1"
    using r(2) unfolding sh .
qed

lemma float32_nonneg: "0 \<le> x \<Longrightarrow> 0 \<le> float32 x"
  unfolding float32_def by (rule round_to_nonneg)

lemma float32_nonpos: "x \<le> 0 \<Longrightarrow> float32 x \<le> 0"
  using float32_mono [of x 0] by simp

lemma float32_le_one: "x \<le> 1 \<Longrightarrow> float32 x \<le> 1"
  using float32_mono [of x 1] by simp

lemma intensity_f32_range:
  assumes sin: "\<forall>x. - 1 \<le> libm_sin x \<and> libm_sin x \<le> 1"
    and exp: "\<forall>x\<le>0. 0 \<le> libm_exp x \<and> libm_exp x \<le> 1"
  shows "0 \<le> intensity_f32 libm_sin libm_exp i pos offset"
    and "intensity_f32 libm_sin libm_exp i pos offset \<le> 1"
proof -
  define a where "a = float32 (- \<bar>float32 (real i - pos)\<bar> * GLOW_DECAY)"
  define e where "e = float32 (libm_exp a)"
  define sh where "sh = shimmer_f32 libm_sin i offset"
  have "- \<bar>float32 (real i - pos)\<bar> * GLOW_DECAY \<le> 0"
    by (simp add: GLOW_DECAY_def)
  then have "a \<le> 0"
    unfolding a_def by (rule float32_nonpos)
  with exp have "0 \<le> libm_exp a" "libm_exp a \<le> 1"
    by simp_all
  then have e: "0 \<le> e" "e \<le> 1"
    unfolding e_def by (simp_all add: float32_nonneg float32_le_one)
  have sh: "0.6 \<le> sh" "sh \<le> 1"
    unfolding sh_def using sin by (intro shimmer_f32_range; simp)+
  have "0 \<le> e * sh"
    using e sh by simp
  moreover have "e * sh \<le> 1 * 1"
    using e sh by (intro mult_mono) simp_all
  ultimately have "0 \<le> float32 (e * sh)" "float32 (e * sh) \<le> 1"
    by (simp_all add: float32_nonneg float32_le_one)
  moreover have "intensity_f32 libm_sin libm_exp i pos offset = float32 (e * sh)"
    by (simp add: intensity_f32_def Let_def e_def a_def sh_def)
  ultimately show "0 \<le> intensity_f32 libm_sin libm_exp i pos offset"
    and "intensity_f32 libm_sin libm_exp i pos offset \<le> 1"
    by simp_all
qed

lemma scale_f32_range:
  assumes "0 \<le> x" "x \<le> 1"
  shows "0 \<le> float32 (x * 255)" and "float32 (x * 255) \<le> 255"
proof -
  show "0 \<le> float32 (x * 255)"
    using assms(1) by (intro float32_nonneg) simp
  have "float32 (x * 255) \<le> float32 255"
    using assms(2) by (intro float32_mono) simp
  then show "float32 (x * 255) \<le> 255"
    by (simp add: float32_255)
qed

lemma glow_loop_f32_leds:
  "j < length (leds s) \<Longrightarrow>
   leds (glow_loop_f32 libm_sin libm_exp nscale8 i s) ! j =
     (if i \<le> j \<and> j < NUM_LEDS
      then nscale8 WATER_COLOR (float_to_uint8 (float32 (intensity_f32 libm_sin libm_exp j (water_pos s) (flow_time_offset s) * 255)))
      else leds s ! j)"
proof (induction libm_sin libm_exp nscale8 i s rule: glow_loop_f32.induct)
  case (1 libm_sin libm_exp nscale8 i s)
  show ?case
  proof (cases "i < NUM_LEDS")
    case True
    let ?color = "nscale8 WATER_COLOR (float_to_uint8 (float32 (intensity_f32 libm_sin libm_exp i (water_pos s) (flow_time_offset s) * 255)))"
    let ?s = "s\<lparr>leds := (leds s)[i := ?color]\<rparr>"
    have unfold: "glow_loop_f32 libm_sin libm_exp nscale8 i s = glow_loop_f32 libm_sin libm_exp nscale8 (Suc i) ?s"
      using True by (subst glow_loop_f32.simps) (simp add: Let_def)
    have IH: "leds (glow_loop_f32 libm_sin libm_exp nscale8 (Suc i) ?s) ! j =
        (if Suc i \<le> j \<and> j < NUM_LEDS
         then nscale8 WATER_COLOR (float_to_uint8 (float32 (intensity_f32 libm_sin libm_exp j (water_pos ?s) (flow_time_offset ?s) * 255)))
         else leds ?s ! j)"
      using "1.IH" [OF True refl refl] "1.prems" by simp
    show ?thesis
    proof (cases "j = i")
      case True
      with \<open>i < NUM_LEDS\<close> "1.prems" show ?thesis
        unfolding unfold IH by simp
    next
      case False
      then show ?thesis
        unfolding unfold IH by auto
    qed
  next
    case False
    then show ?thesis by (subst glow_loop_f32.simps) auto
  qed
qed

lemma apply_glow_f32_leds:
  "i < NUM_LEDS \<Longrightarrow>
     leds (apply_glow_f32 libm_sin libm_exp nscale8 s) ! i =
       nscale8 WATER_COLOR (float_to_uint8 (float32
         (intensity_f32 libm_sin libm_exp i (water_pos s) (float32 (float64 (flow_time_offset s + float64 0.05))) * 255)))"
  by (simp add: apply_glow_f32_def Let_def glow_loop_f32_leds)

lemma apply_glow_f32_deterministic:
  assumes "water_pos s1 = water_pos s2" "flow_time_offset s1 = flow_time_offset s2"
  shows "leds (apply_glow_f32 libm_sin libm_exp nscale8 s1) = leds (apply_glow_f32 libm_sin libm_exp nscale8 s2)"
proof (rule nth_equalityI)
  show "length (leds (apply_glow_f32 libm_sin libm_exp nscale8 s1)) = length (leds (apply_glow_f32 libm_sin libm_exp nscale8 s2))"
    by (simp add: apply_glow_f32_frame)
  show "leds (apply_glow_f32 libm_sin libm_exp nscale8 s1) ! i = leds (apply_glow_f32 libm_sin libm_exp nscale8 s2) ! i"
    if "i < length (leds (apply_glow_f32 libm_sin libm_exp nscale8 s1))" for i
    using that assms by (simp add: apply_glow_f32_frame apply_glow_f32_leds)
qed

lemma update_led_strip_f32_phase:
  "flow_time_offset (update_led_strip_f32 libm_sin libm_exp nscale8 s) = float32 (float64 (flow_time_offset s + float64 0.05))"
  by (simp add: update_led_strip_f32_def apply_glow_f32_frame edge_reflection_f32_def
      physics_update_f32_def Let_def)

lemma phase_from_zero: "float32 (float64 (0 + float64 0.05)) = 13421773 / 2 ^ 28"
proof -
  have d: "float64 (0 + 3602879701896397 / 2 ^ 56) = 3602879701896397 / 2 ^ 56"
    by (subst float64_in_binade [of "- 5"]) (simp_all add: round_even_def Let_def)
  have f: "float32 (3602879701896397 / 2 ^ 56) = 13421773 / 2 ^ 28"
    by (subst float32_in_binade [of "- 5"]) (simp_all add: round_even_def Let_def)
  show ?thesis unfolding float64_lit_0_05 d f ..
qed

lemma phase_at_65536: "float32 (float64 (65536 + float64 0.05)) = 65536 + 0.046875"
proof -
  have d: "float64 (65536 + 3602879701896397 / 2 ^ 56) = 4503603063344333 / 2 ^ 36"
    by (subst float64_in_binade [of 16]) (simp_all add: round_even_def Let_def)
  have f: "float32 (4503603063344333 / 2 ^ 36) = 65536 + 0.046875"
    by (subst float32_in_binade [of 16]) (simp_all add: round_even_def Let_def)
  show ?thesis unfolding float64_lit_0_05 d f ..
qed

lemma phase_at_1048576: "float32 (float64 (1048576 + float64 0.05)) = 1048576"
proof -
  have d: "float64 (1048576 + 3602879701896397 / 2 ^ 56) = 4503599842118861 / 2 ^ 32"
    by (subst float64_in_binade [of 20]) (simp_all add: round_even_def Let_def)
  have f: "float32 (4503599842118861 / 2 ^ 32) = 1048576"
    by (subst float32_in_binade [of 20]) (simp_all add: round_even_def Let_def)
  show ?thesis unfolding float64_lit_0_05 d f ..
qed

text \<open>
  The shimmer phase is a \<open>float\<close>, and line 161 does not add 0.05 to every value of it.
  At the phase 65536 the spacing of single precision is \<open>1 / 128\<close> and the frame adds
  0.046875; at the phase 1048576 the spacing is \<open>1 / 8\<close> and the frame leaves the phase
  where it was.
\<close>
theorem shimmer_phase_not_advanced_by_0_05:
  "flow_time_offset (update_led_strip_f32 sin exp (\<lambda>c k. c\<lparr>b := k\<rparr>)
      (initial\<lparr>flow_time_offset := 1048576\<rparr>)) = 1048576
   \<and> flow_time_offset (update_led_strip_f32 sin exp (\<lambda>c k. c\<lparr>b := k\<rparr>)
      (initial\<lparr>flow_time_offset := 1048576\<rparr>))
     \<noteq> flow_time_offset (initial\<lparr>flow_time_offset := 1048576\<rparr>) + 0.05
   \<and> flow_time_offset (update_led_strip_f32 sin exp (\<lambda>c k. c\<lparr>b := k\<rparr>)
      (initial\<lparr>flow_time_offset := 65536\<rparr>)) = 65536 + 0.046875
   \<and> flow_time_offset (update_led_strip_f32 sin exp (\<lambda>c k. c\<lparr>b := k\<rparr>)
      (initial\<lparr>flow_time_offset := 65536\<rparr>))
     \<noteq> flow_time_offset (initial\<lparr>flow_time_offset := 65536\<rparr>) + 0.05"
proof -
  have a: "flow_time_offset (initial\<lparr>flow_time_offset := 1048576\<rparr>) = 1048576"
    and b: "flow_time_offset (initial\<lparr>flow_time_offset := 65536\<rparr>) = 65536"
    by simp_all
  have "flow_time_offset (update_led_strip_f32 sin exp (\<lambda>c k. c\<lparr>b := k\<rparr>)
      (initial\<lparr>flow_time_offset := 1048576\<rparr>)) = 1048576"
    unfolding update_led_strip_f32_phase a phase_at_1048576 ..
  moreover have "flow_time_offset (update_led_strip_f32 sin exp (\<lambda>c k. c\<lparr>b := k\<rparr>)
      (initial\<lparr>flow_time_offset := 65536\<rparr>)) = 65536 + 0.046875"
    unfolding update_led_strip_f32_phase b phase_at_65536 ..
  ultimately show ?thesis
    by simp
qed

text \<open>
  C8, as amended. The library calls \<open>sin\<close> and \<open>exp\<close> are taken as given, with values in
  \<open>[-1, 1]\<close> and, for arguments up to 0, in \<open>[0, 1]\<close>. One frame advances the shimmer
  phase once: to the sum of the phase and 0.05, computed in \<open>double\<close> and rounded to
  \<open>float\<close>. The frame has \<open>NUM_LEDS\<close> pixels, and pixel \<open>i\<close> is the base colour passed
  to \<open>nscale8\<close> with the byte \<open>\<lfloor>scale\<rfloor>\<close>, where \<open>scale\<close> is \<open>intensity * 255\<close> in single
  precision, \<open>intensity\<close> is \<open>exp (- \<bar>i - position\<bar> * 0.5) * shimmer\<close> with each store
  rounded to \<open>float\<close> (an exponential falloff), and \<open>shimmer\<close> is
  \<open>sin (i * 0.3 + phase) * 0.2 + 0.8\<close> computed in \<open>double\<close> and rounded to \<open>float\<close>, with
  the new phase, the same for every pixel. The shimmer lies in \<open>[0.6, 1.0]\<close>. Two
  states with the same position and phase are given the same pixels.
\<close>
theorem glow_rasterizer_single_precision:
  "(\<forall>x. - 1 \<le> libm_sin x \<and> libm_sin x \<le> 1) \<Longrightarrow>
   (\<forall>x\<le>0. 0 \<le> libm_exp x \<and> libm_exp x \<le> 1) \<Longrightarrow>
   (let s' = update_led_strip_f32 libm_sin libm_exp nscale8 s
    in flow_time_offset s' = float32 (float64 (flow_time_offset s + float64 0.05))
     \<and> length (leds s') = NUM_LEDS
     \<and> (\<forall>i<NUM_LEDS.
          (let shimmer = float32 (float64 (float64
                 (libm_sin (float64 (float64 (real i * float64 0.3) + flow_time_offset s')) * float64 0.2)
                   + float64 0.8));
               intensity = float32 (float32 (libm_exp
                 (float32 (- \<bar>float32 (real i - water_pos s')\<bar> * GLOW_DECAY))) * shimmer);
               scale = float32 (intensity * 255)
           in leds s' ! i = nscale8 WATER_COLOR (float_to_uint8 scale)
            \<and> unat (float_to_uint8 scale) = nat \<lfloor>scale\<rfloor>
            \<and> 0.6 \<le> shimmer \<and> shimmer \<le> 1.0)))
   \<and> (water_pos s1 = water_pos s2 \<and> flow_time_offset s1 = flow_time_offset s2 \<longrightarrow>
        leds (apply_glow_f32 libm_sin libm_exp nscale8 s1) = leds (apply_glow_f32 libm_sin libm_exp nscale8 s2))"
proof -
  assume sin: "\<forall>x. - 1 \<le> libm_sin x \<and> libm_sin x \<le> 1"
    and exp: "\<forall>x\<le>0. 0 \<le> libm_exp x \<and> libm_exp x \<le> 1"
  let ?s' = "update_led_strip_f32 libm_sin libm_exp nscale8 s"
  let ?p = "edge_reflection_f32 (physics_update_f32 s)"
  have phase: "flow_time_offset ?s' = float32 (float64 (flow_time_offset s + float64 0.05))"
    by (rule update_led_strip_f32_phase)
  have phase_p: "float32 (float64 (flow_time_offset ?p + float64 0.05)) = flow_time_offset ?s'"
    by (simp add: update_led_strip_f32_def apply_glow_f32_frame)
  have pos: "water_pos ?p = water_pos ?s'"
    by (simp add: update_led_strip_f32_pos)
  have len: "length (leds ?s') = NUM_LEDS"
    by (simp add: update_led_strip_f32_def apply_glow_f32_frame)
  have pixel: "leds ?s' ! i = nscale8 WATER_COLOR (float_to_uint8 (float32
      (intensity_f32 libm_sin libm_exp i (water_pos ?s') (flow_time_offset ?s') * 255)))"
    if "i < NUM_LEDS" for i
    using apply_glow_f32_leds [OF that, of libm_sin libm_exp nscale8 ?p]
    unfolding phase_p pos by (simp add: update_led_strip_f32_def)
  have byte: "unat (float_to_uint8 (float32
      (intensity_f32 libm_sin libm_exp i (water_pos ?s') (flow_time_offset ?s') * 255))) =
      nat \<lfloor>float32 (intensity_f32 libm_sin libm_exp i (water_pos ?s') (flow_time_offset ?s') * 255)\<rfloor>" for i
    using intensity_f32_range [OF sin exp] by (intro float_to_uint8_integer_part scale_f32_range)
  have sh: "0.6 \<le> shimmer_f32 libm_sin i (flow_time_offset ?s') \<and> shimmer_f32 libm_sin i (flow_time_offset ?s') \<le> 1.0" for i
    using sin shimmer_f32_range [of libm_sin i "flow_time_offset ?s'"] by simp
  show ?thesis
    unfolding Let_def
    using phase len pixel byte sh apply_glow_f32_deterministic [of s1 s2 libm_sin libm_exp nscale8]
    unfolding intensity_f32_def shimmer_f32_def Let_def by blast
qed

text \<open>
  At the initial state the particle rests on pixel 15 and the first frame moves the phase
  to \<open>13421773 / 2 ^ 28\<close>. With a sine that returns 1 the shimmer is 1, the intensity at
  pixel 15 is \<open>exp 0 = 1\<close> and the byte is 255.
\<close>

lemma particle_at_rest:
  "water_pos (update_led_strip_f32 libm_sin libm_exp nscale8 initial) = 15"
proof -
  have s: "g_tilt_x initial = 0" "water_vel initial = 0" "water_pos initial = 15"
    by (simp_all add: initial_def NUM_LEDS_def)
  have c: "constrain 0 (- MAX_VELOCITY) MAX_VELOCITY = 0"
    by (simp add: constrain_def MAX_VELOCITY_def)
  have pos: "float32 (15 + 0) = 15"
    by (subst float32_in_binade [of 3]) (simp_all add: round_even_def Let_def)
  have vel: "water_vel (physics_update_f32 initial) = 0"
    unfolding physics_update_f32_vel s mult_zero_left float64_zero float32_zero add_0_right c ..
  have p: "water_pos (physics_update_f32 initial) = 15"
    unfolding physics_update_f32_pos vel s pos ..
  then have "edge_reflection_f32 (physics_update_f32 initial) = physics_update_f32 initial"
    by (intro edge_reflection_f32_in_range) (simp_all add: NUM_LEDS_def)
  with p show ?thesis
    by (simp add: update_led_strip_f32_pos)
qed

theorem glow_rasterizer_single_precision_witness:
  "(\<forall>x::real. - 1 \<le> sin x \<and> sin x \<le> 1)
   \<and> flow_time_offset (update_led_strip_f32 sin exp (\<lambda>c k. c\<lparr>b := k\<rparr>) initial) = 13421773 / 2 ^ 28
   \<and> length (leds (update_led_strip_f32 sin exp (\<lambda>c k. c\<lparr>b := k\<rparr>) initial)) = NUM_LEDS
   \<and> (\<forall>x::real. - 1 \<le> (\<lambda>x. 1::real) x \<and> (\<lambda>x. 1::real) x \<le> 1)
   \<and> 15 < NUM_LEDS
   \<and> leds (update_led_strip_f32 (\<lambda>x. 1) exp (\<lambda>c k. c\<lparr>b := k\<rparr>) initial) ! 15 = \<lparr>r = 0, g = 0, b = 255\<rparr>
   \<and> unat (float_to_uint8 255) = nat \<lfloor>255 :: real\<rfloor>
   \<and> water_pos initial = water_pos (initial\<lparr>water_vel := 1, leds := []\<rparr>)
   \<and> flow_time_offset initial = flow_time_offset (initial\<lparr>water_vel := 1, leds := []\<rparr>)
   \<and> leds (apply_glow_f32 sin exp (\<lambda>c k. c\<lparr>b := k\<rparr>) initial) =
       leds (apply_glow_f32 sin exp (\<lambda>c k. c\<lparr>b := k\<rparr>) (initial\<lparr>water_vel := 1, leds := []\<rparr>))"
proof -
  let ?f = "\<lambda>c k. c\<lparr>b := k\<rparr>"
  let ?one = "\<lambda>x::real. 1::real"
  let ?s2 = "initial\<lparr>water_vel := 1, leds := []\<rparr>"
  have sin: "\<forall>x::real. - 1 \<le> sin x \<and> sin x \<le> 1"
    by simp
  have exp: "\<forall>x::real\<le>0. 0 \<le> exp x \<and> exp x \<le> 1"
    by simp
  have one: "\<forall>x::real. - 1 \<le> ?one x \<and> ?one x \<le> (1::real)"
    by simp
  have n: "15 < NUM_LEDS"
    by (simp add: NUM_LEDS_def)
  note T = glow_rasterizer_single_precision [OF sin exp, of ?f initial initial ?s2, unfolded Let_def]
  note U = glow_rasterizer_single_precision [OF one exp, of ?f initial initial ?s2, unfolded Let_def]
  from T have "flow_time_offset (update_led_strip_f32 sin exp ?f initial) =
      float32 (float64 (flow_time_offset initial + float64 0.05))"
    by blast
  then have phase: "flow_time_offset (update_led_strip_f32 sin exp ?f initial) = 13421773 / 2 ^ 28"
    using phase_from_zero by (simp add: initial_def)
  from T have len: "length (leds (update_led_strip_f32 sin exp ?f initial)) = NUM_LEDS"
    by blast
  have same: "water_pos initial = water_pos ?s2 \<and> flow_time_offset initial = flow_time_offset ?s2"
    by simp
  with T have det: "leds (apply_glow_f32 sin exp ?f initial) = leds (apply_glow_f32 sin exp ?f ?s2)"
    by blast
  have z: "float32 (real 15 - 15) = 0"
    by simp
  have a: "float32 (- \<bar>0\<bar> * GLOW_DECAY) = 0"
    by simp
  have sh: "float32 (float64 (float64 (1 * float64 0.2) + float64 0.8)) = 1"
    unfolding float64_lit_0_2 float64_lit_0_8 mult_1 float64_amplitude by (rule shimmer_sum_high)
  have i: "float32 (float32 (exp 0) * 1) = 1"
    by simp
  have sc: "float32 (1 * 255) = 255"
    by (simp add: float32_255)
  from U n have "leds (update_led_strip_f32 ?one exp ?f initial) ! 15 =
      ?f WATER_COLOR (float_to_uint8 (float32 (float32 (float32 (exp (float32
        (- \<bar>float32 (real 15 - water_pos (update_led_strip_f32 ?one exp ?f initial))\<bar> * GLOW_DECAY)))
          * float32 (float64 (float64 (1 * float64 0.2) + float64 0.8))) * 255)))"
    by blast
  then have "leds (update_led_strip_f32 ?one exp ?f initial) ! 15 = ?f WATER_COLOR (float_to_uint8 255)"
    unfolding particle_at_rest z a sh i sc .
  then have pixel: "leds (update_led_strip_f32 ?one exp ?f initial) ! 15 = \<lparr>r = 0, g = 0, b = 255\<rparr>"
    by (simp add: WATER_COLOR_def float_to_uint8_def)
  have byte: "unat (float_to_uint8 255) = nat \<lfloor>255 :: real\<rfloor>"
    by (rule float_to_uint8_integer_part) simp_all
  from same have same1: "water_pos initial = water_pos ?s2"
    and same2: "flow_time_offset initial = flow_time_offset ?s2"
    by blast+
  show ?thesis
    by (intro conjI) (fact sin phase len one n pixel byte same1 same2 det)+
qed

end
